theory Spec2Isabelle
  imports Complex_Main "HOL-Library.Product_Lexorder"
begin

section \<open>Data model\<close>

text \<open>
  The rows the task socket reads and writes (\<^verbatim>\<open>components/tasks/sockets.py\<close>).
  Field names carry a short prefix (\<open>rec_\<close>, \<open>task_\<close>, \<open>mgr_\<close>) because the ORM classes
  share attribute names (\<^verbatim>\<open>id\<close>, \<^verbatim>\<open>status\<close>). Ids and counters are Python ints,
  timestamps are abstract points in time.
\<close>

datatype RecordStatusEnum = complete | invalid | running | error | waiting | cancelled | deleted

datatype ManagerStatusEnum = active | inactive

text \<open>
  What a manager sends back for one task. The code looks at two things only:
  the \<^verbatim>\<open>success\<close> attribute and whether the object is a \<^verbatim>\<open>FailedOperation\<close>.
  A \<^verbatim>\<open>FailedOperation\<close> carries an error (type and message); any other result type
  carries an opaque payload.
\<close>

datatype result =
    FailedOperation bool string string
  | OtherResult bool int

fun success :: "result \<Rightarrow> bool" where
  "success (FailedOperation s _ _) = s"
| "success (OtherResult s _) = s"

fun is_FailedOperation :: "result \<Rightarrow> bool" where
  "is_FailedOperation (FailedOperation _ _ _) = True"
| "is_FailedOperation (OtherResult _ _) = False"

fun error_type :: "result \<Rightarrow> string" where
  "error_type (FailedOperation _ t _) = t"
| "error_type (OtherResult _ _) = []"

record history_entry =
  hist_status :: RecordStatusEnum
  hist_manager_name :: string
  hist_result :: result

record BaseRecordORM =
  rec_status :: RecordStatusEnum
  rec_manager_name :: "string option"
  rec_modified_on :: nat
  rec_compute_history :: "history_entry list"

text \<open>
  \<open>task_available\<close> is the column added by the migration
  \<^verbatim>\<open>2024-10-18-12e2ba353ee6_add_available_column_on_task_queue.py\<close>.
\<close>

record TaskQueueORM =
  task_id :: int
  task_record_id :: int
  task_tag :: string
  task_priority :: int
  task_required_programs :: "string list"
  task_created_on :: nat
  task_available :: bool

record ComputeManagerORM =
  mgr_name :: string
  mgr_status :: ManagerStatusEnum
  mgr_programs :: "string list"
  mgr_tags :: "string list"
  mgr_successes :: int
  mgr_failures :: int
  mgr_rejected :: int
  mgr_claimed :: int

text \<open>
  The database: the task queue in row order, records keyed by their id (the primary key
  is the key of the map, so a record row has no id field of its own), managers keyed by name.
\<close>

record database =
  task_queue :: "TaskQueueORM list"
  base_record :: "int \<rightharpoonup> BaseRecordORM"
  compute_manager :: "string \<rightharpoonup> ComputeManagerORM"

datatype exn = ComputeManagerError string | RuntimeError string | IndexError | MissingDataError

section \<open>The migration that adds the \<^verbatim>\<open>available\<close> column\<close>

text \<open>
  \<^verbatim>\<open>UPDATE task_queue tq SET available = CASE WHEN br.status = 'waiting' THEN TRUE
  ELSE FALSE END FROM base_record br WHERE tq.record_id = br.id\<close>: rows with no record
  are not touched.
\<close>

definition upgrade :: "database \<Rightarrow> database" where
  "upgrade db = db\<lparr>task_queue :=
     map (\<lambda>tq. case base_record db (task_record_id tq) of
                  None \<Rightarrow> tq
                | Some br \<Rightarrow> tq\<lparr>task_available := (rec_status br = waiting)\<rparr>)
         (task_queue db)\<rparr>"

section \<open>Claiming tasks\<close>

text \<open>
  Modelled from the spec: \<^verbatim>\<open>qcportal.utils.calculate_limit\<close> is imported by
  \<^verbatim>\<open>sockets.py\<close> but its body is not part of the sources. The callers' docstrings
  say: "If None, the server limit will be used. This limit will not be respected if
  greater than the configured limit of the server."
\<close>

definition calculate_limit :: "int \<Rightarrow> int option \<Rightarrow> int" where
  "calculate_limit max_limit given_limit =
     (case given_limit of None \<Rightarrow> max_limit | Some l \<Rightarrow> min l max_limit)"

text \<open>
  The query of one loop iteration: join with the record, keep rows whose record is
  \<^verbatim>\<open>waiting\<close>, whose required programs are contained in the manager's programs and,
  unless the tag is \<^verbatim>\<open>"*"\<close>, whose tag is the given one; order by priority descending,
  then \<^verbatim>\<open>created_on\<close>; limit. Rows that tie on both keys keep their row order (the
  database leaves that order open). Row locks of other sessions are not modelled.
\<close>

definition record_status :: "database \<Rightarrow> TaskQueueORM \<Rightarrow> RecordStatusEnum option" where
  "record_status db t = map_option rec_status (base_record db (task_record_id t))"

definition claimable :: "database \<Rightarrow> string list \<Rightarrow> string \<Rightarrow> TaskQueueORM \<Rightarrow> bool" where
  "claimable db manager_programs tag t \<longleftrightarrow>
     record_status db t = Some waiting \<and>
     set (task_required_programs t) \<subseteq> set manager_programs \<and>
     (tag = ''*'' \<or> task_tag t = tag)"

definition claim_order :: "TaskQueueORM \<Rightarrow> int \<times> nat" where
  "claim_order t = (- task_priority t, task_created_on t)"

definition select_tasks :: "database \<Rightarrow> string list \<Rightarrow> string \<Rightarrow> int \<Rightarrow> TaskQueueORM list" where
  "select_tasks db manager_programs tag new_limit =
     take (nat new_limit)
       (sort_key claim_order (filter (claimable db manager_programs tag) (task_queue db)))"

text \<open>
  \<^verbatim>\<open>task_orm.record.status = running; .manager_name = manager_name;
  .modified_on = datetime.utcnow()\<close>. The clock is the argument \<open>now\<close>.
\<close>

definition claim_record :: "string \<Rightarrow> nat \<Rightarrow> database \<Rightarrow> TaskQueueORM \<Rightarrow> database" where
  "claim_record manager_name now db task_orm =
     (case base_record db (task_record_id task_orm) of
        None \<Rightarrow> db
      | Some r \<Rightarrow> db\<lparr>base_record := (base_record db)(task_record_id task_orm \<mapsto>
          r\<lparr>rec_status := running, rec_manager_name := Some manager_name,
            rec_modified_on := now\<rparr>)\<rparr>)"

text \<open>The loop \<^verbatim>\<open>for tag in manager.tags\<close>, with its \<^verbatim>\<open>break\<close>.\<close>

fun claim_loop ::
  "string \<Rightarrow> nat \<Rightarrow> string list \<Rightarrow> int \<Rightarrow> string list \<Rightarrow> database \<Rightarrow> TaskQueueORM list
     \<Rightarrow> database \<times> TaskQueueORM list" where
  "claim_loop manager_name now manager_programs limit [] db found = (db, found)"
| "claim_loop manager_name now manager_programs limit (tag # tags) db found =
     (let new_limit = limit - int (length found) in
      if new_limit \<le> 0 then (db, found)
      else
        let new_items = select_tasks db manager_programs tag new_limit;
            db' = foldl (claim_record manager_name now) db new_items
        in claim_loop manager_name now manager_programs limit tags db' (found @ new_items))"

text \<open>
  \<^verbatim>\<open>TaskSocket.claim_tasks\<close>. The first argument is
  \<^verbatim>\<open>api_limits.manager_tasks_claim\<close>. The result pairs what the call returns or
  raises with the database it leaves behind.
\<close>

definition claim_tasks ::
  "int \<Rightarrow> nat \<Rightarrow> database \<Rightarrow> string \<Rightarrow> int option
     \<Rightarrow> (exn + TaskQueueORM list) \<times> database" where
  "claim_tasks tasks_claim_limit now db manager_name limit =
     (let limit' = calculate_limit tasks_claim_limit limit in
      case compute_manager db manager_name of
        None \<Rightarrow> (Inl (ComputeManagerError ''Manager does not exist!''), db)
      | Some manager \<Rightarrow>
          if mgr_status manager \<noteq> active
          then (Inl (ComputeManagerError ''Manager is not active!''), db)
          else
            let (db', found) = claim_loop manager_name now (mgr_programs manager) limit'
                                 (mgr_tags manager) db [];
                manager' = manager\<lparr>mgr_claimed := mgr_claimed manager + int (length found)\<rparr>
            in (Inr found,
                db'\<lparr>compute_manager := (compute_manager db')(manager_name \<mapsto> manager')\<rparr>))"

section \<open>Returning finished tasks\<close>

text \<open>
  What the session is asked to do, in the order \<^verbatim>\<open>update_finished\<close> asks for it. Row
  locks taken with \<^verbatim>\<open>with_for_update\<close> are held until the transaction ends, that is
  until \<open>commit\<close> or \<open>rollback\<close>; the operations on a savepoint
  (\<open>begin_nested\<close>, \<open>nested_rollback\<close>, \<open>nested_commit\<close>) do not end it.
\<close>

datatype session_op =
    select_manager_for_update
  | select_task_for_update int
  | begin_nested
  | nested_rollback
  | nested_commit
  | flush
  | commit
  | rollback

text \<open>
  A call that mutates its argument in place and may raise: either it returns and leaves
  the new value, or it raises (with traceback text) and leaves whatever it had written
  until then.
\<close>

datatype 'a attempt = Returned 'a | Raised 'a string

text \<open>
  Modelled from the spec: \<^verbatim>\<open>records.update_failed_task\<close> is called by
  \<^verbatim>\<open>sockets.py\<close> but belongs to the records socket, which is not part of the sources.
  Spec 4.2: "apply failure outcome: append failure to compute history, status
  \<rightarrow> error".
\<close>

definition update_failed_task :: "BaseRecordORM \<Rightarrow> result \<Rightarrow> string \<Rightarrow> BaseRecordORM" where
  "update_failed_task record_orm failed_result manager_name =
     record_orm\<lparr>rec_status := error,
       rec_compute_history := rec_compute_history record_orm @
         [\<lparr>hist_status = error, hist_manager_name = manager_name,
           hist_result = failed_result\<rparr>]\<rparr>"

text \<open>
  Modelled from the spec: \<^verbatim>\<open>records.update_completed_task\<close> belongs to the records
  socket as well. Spec 4.2: "apply success outcome (append history, status \<rightarrow>
  complete, persist outputs) via the owning record-type's own completion logic
  (polymorphic per record kind)". The completion logic of the record type is the
  argument \<open>handler\<close>; it is the part that can raise.
\<close>

definition update_completed_task ::
  "(BaseRecordORM \<Rightarrow> result \<Rightarrow> string \<Rightarrow> BaseRecordORM attempt)
     \<Rightarrow> BaseRecordORM \<Rightarrow> result \<Rightarrow> string \<Rightarrow> BaseRecordORM attempt" where
  "update_completed_task handler record_orm result manager_name =
     (case handler record_orm result manager_name of
        Raised r tb \<Rightarrow> Raised r tb
      | Returned r \<Rightarrow> Returned (r\<lparr>rec_status := complete,
          rec_compute_history := rec_compute_history r @
            [\<lparr>hist_status = complete, hist_manager_name = manager_name,
              hist_result = result\<rparr>]\<rparr>))"

text \<open>
  What \<^verbatim>\<open>update_finished\<close> takes from outside the task socket: the completion logic
  of the record types, \<^verbatim>\<open>qcf_config.auto_reset.enabled\<close>, \<^verbatim>\<open>should_reset\<close> of
  \<^verbatim>\<open>reset_logic\<close> (with the configuration already applied) and \<^verbatim>\<open>records.reset\<close>.
\<close>

record collaborators =
  completion_handler :: "BaseRecordORM \<Rightarrow> result \<Rightarrow> string \<Rightarrow> BaseRecordORM attempt"
  auto_reset_enabled :: bool
  should_reset :: "BaseRecordORM \<Rightarrow> bool"
  reset :: "int list \<Rightarrow> database \<Rightarrow> database"

text \<open>The local variables of \<^verbatim>\<open>update_finished\<close>, with the session.\<close>

record locals =
  session_db :: database
  session_ops :: "session_op list"
  tasks_success :: "int list"
  tasks_failures :: "int list"
  tasks_rejected :: "(int \<times> string) list"
  all_notifications :: "(int \<times> RecordStatusEnum) list"
  to_be_reset :: "int list"

definition session_do :: "session_op list \<Rightarrow> locals \<Rightarrow> locals" where
  "session_do ops st = st\<lparr>session_ops := session_ops st @ ops\<rparr>"

definition write_record :: "int \<Rightarrow> BaseRecordORM \<Rightarrow> locals \<Rightarrow> locals" where
  "write_record record_id r st =
     st\<lparr>session_db := (session_db st)\<lparr>base_record := (base_record (session_db st))(record_id \<mapsto> r)\<rparr>\<rparr>"

definition reject :: "int \<Rightarrow> string \<Rightarrow> locals \<Rightarrow> locals" where
  "reject tid reason st = st\<lparr>tasks_rejected := tasks_rejected st @ [(tid, reason)]\<rparr>"

definition notify :: "int \<Rightarrow> RecordStatusEnum \<Rightarrow> locals \<Rightarrow> locals" where
  "notify record_id notify_status st =
     st\<lparr>all_notifications := all_notifications st @ [(record_id, notify_status)]\<rparr>"

definition internal_error :: "string \<Rightarrow> result" where
  "internal_error msg = FailedOperation False ''internal_fractal_error'' msg"

text \<open>
  The body of \<^verbatim>\<open>for task_id, result in results.items()\<close>. The task is loaded with
  an inner join on its record, so a task row without a record is not found either.
  The loop variable \<^verbatim>\<open>task_id\<close> is \<open>tid\<close> here. The message of the synthetic error for
  an unexpected return leaves out the two ids the source interpolates; \<open>tb\<close> stands
  for \<^verbatim>\<open>traceback.format_exc()\<close>.
  \<^verbatim>\<open>result.success is False\<close> and \<^verbatim>\<open>result.success is not True\<close> are read on a
  Boolean \<^verbatim>\<open>success\<close>.
\<close>

definition process_result ::
  "collaborators \<Rightarrow> string \<Rightarrow> locals \<Rightarrow> int \<times> result \<Rightarrow> locals" where
  "process_result env manager_name st0 item =
     (let tid = fst item; result = snd item;
          st = session_do [select_task_for_update tid] st0;
          db = session_db st
      in
      case find (\<lambda>t. task_id t = tid) (task_queue db) of
        None \<Rightarrow> reject tid ''Task does not exist in the task queue'' st
      | Some task_orm \<Rightarrow>
        (case base_record db (task_record_id task_orm) of
           None \<Rightarrow> reject tid ''Task does not exist in the task queue'' st
         | Some record_orm \<Rightarrow>
            let record_id = task_record_id task_orm;
                st1 = session_do [begin_nested] st
            in
            if rec_status record_orm \<noteq> running then
              session_do [nested_commit]
                (reject tid ''Task is not in a running state'' st1)
            else if rec_manager_name record_orm \<noteq> Some manager_name then
              session_do [nested_commit]
                (reject tid ''Task is claimed by another manager'' st1)
            else if \<not> success result \<and> is_FailedOperation result then
              let record_orm' = update_failed_task record_orm result manager_name;
                  st2 = write_record record_id record_orm' st1;
                  st3 = st2\<lparr>tasks_failures := tasks_failures st2 @ [tid]\<rparr>;
                  st4 = (if auto_reset_enabled env \<and> should_reset env record_orm'
                         then st3\<lparr>to_be_reset := to_be_reset st3 @ [record_id]\<rparr> else st3)
              in notify record_id error (session_do [nested_commit] st4)
            else if \<not> success result then
              let failed_op = internal_error
                    ''Unexpected return from manager: Returned success != True, but not a FailedOperation'';
                  st2 = write_record record_id
                          (update_failed_task record_orm failed_op manager_name) st1;
                  st3 = reject tid ''Returned success=False, but not a FailedOperation'' st2
              in notify record_id error (session_do [nested_commit] st3)
            else
              (case update_completed_task (completion_handler env) record_orm result manager_name of
                 Returned record_orm' \<Rightarrow>
                   let st2 = write_record record_id record_orm' st1;
                       st3 = st2\<lparr>tasks_success := tasks_success st2 @ [tid]\<rparr>
                   in notify record_id complete (session_do [nested_commit] st3)
               | Raised dirty tb \<Rightarrow>
                   let st2 = session_do [nested_rollback, begin_nested]
                               (write_record record_id dirty st1);
                       st3 = write_record record_id record_orm st2;
                       failed_op = internal_error (''Internal FractalServer Error:'' @ tb);
                       st4 = write_record record_id
                               (update_failed_task record_orm failed_op manager_name) st3;
                       st5 = reject tid ''Internal server error'' st4
                   in notify record_id error (session_do [nested_commit] st5))))"

text \<open>
  The loop of \<^verbatim>\<open>update_finished\<close> over \<^verbatim>\<open>results.items()\<close>, from the locals as
  they are once the manager row is locked.
\<close>

definition update_finished_loop ::
  "collaborators \<Rightarrow> string \<Rightarrow> database \<Rightarrow> (int \<times> result) list \<Rightarrow> locals" where
  "update_finished_loop env manager_name db results =
     foldl (process_result env manager_name)
       \<lparr>session_db = db, session_ops = [select_manager_for_update],
        tasks_success = [], tasks_failures = [], tasks_rejected = [],
        all_notifications = [], to_be_reset = []\<rparr> results"

record TaskReturnMetadata =
  rejected_info :: "(int \<times> string) list"
  accepted_ids :: "int list"

text \<open>
  What a call leaves behind: the value returned or the exception raised, the database,
  the notifications sent after the session block, and what the session was asked to do.
\<close>

record outcome =
  returned :: "exn + TaskReturnMetadata"
  database_after :: database
  notified :: "(int \<times> RecordStatusEnum) list"
  session_log :: "session_op list"

text \<open>
  \<^verbatim>\<open>TaskSocket.update_finished\<close>. \<^verbatim>\<open>results\<close> is a dict: its items in insertion
  order.
\<close>

definition update_finished ::
  "collaborators \<Rightarrow> database \<Rightarrow> string \<Rightarrow> (int \<times> result) list \<Rightarrow> outcome" where
  "update_finished env db manager_name results =
     (case compute_manager db manager_name of
        None \<Rightarrow>
          \<lparr>returned = Inl (ComputeManagerError (''Manager '' @ manager_name @ '' does not exist'')),
           database_after = db, notified = [], session_log = [select_manager_for_update]\<rparr>
      | Some manager \<Rightarrow>
          if mgr_status manager \<noteq> active then
            \<lparr>returned = Inl (ComputeManagerError (''Manager '' @ manager_name @ '' is not active'')),
             database_after = db, notified = [], session_log = [select_manager_for_update]\<rparr>
          else
            let st = update_finished_loop env manager_name db results;
                manager' = manager\<lparr>
                  mgr_successes := mgr_successes manager + int (length (tasks_success st)),
                  mgr_failures := mgr_failures manager + int (length (tasks_failures st)),
                  mgr_rejected := mgr_rejected manager + int (length (tasks_rejected st))\<rparr>;
                db1 = (session_db st)\<lparr>compute_manager :=
                        (compute_manager (session_db st))(manager_name \<mapsto> manager')\<rparr>;
                db2 = (if auto_reset_enabled env \<and> to_be_reset st \<noteq> []
                       then reset env (to_be_reset st) db1 else db1)
            in \<lparr>returned = Inr \<lparr>rejected_info = tasks_rejected st,
                                accepted_ids = tasks_success st @ tasks_failures st\<rparr>,
                database_after = db2,
                notified = all_notifications st,
                session_log = session_ops st @ [flush]\<rparr>)"

section \<open>Torsiondrive services\<close>

text \<open>
  \<^verbatim>\<open>components/torsiondrive/record_socket.py\<close>. Geometries are coordinate lists and
  energies are numbers; not-a-number values are not modelled. A Python dict is the list
  of its items in insertion order, with distinct keys.
\<close>

type_synonym geometry = "real list"

fun dict_set :: "'k \<Rightarrow> 'v \<Rightarrow> ('k \<times> 'v) list \<Rightarrow> ('k \<times> 'v) list" where
  "dict_set k v [] = [(k, v)]"
| "dict_set k v ((k', v') # d) = (if k = k' then (k, v) # d else (k', v') # dict_set k v d)"

text \<open>\<^verbatim>\<open>d.setdefault(k, []); d[k].append(x)\<close>\<close>

definition dict_append :: "'k \<Rightarrow> 'v \<Rightarrow> ('k \<times> 'v list) list \<Rightarrow> ('k \<times> 'v list) list" where
  "dict_append k x d = dict_set k (case map_of d k of None \<Rightarrow> [x] | Some l \<Rightarrow> l @ [x]) d"

text \<open>Equality of two dicts: the same items, whatever the insertion order.\<close>

definition dict_eq :: "('k \<times> 'v) list \<Rightarrow> ('k \<times> 'v) list \<Rightarrow> bool" where
  "dict_eq a b \<longleftrightarrow> set a = set b"

text \<open>\<^verbatim>\<open>ServiceDependencyORM\<close>, with the two entries of its \<^verbatim>\<open>extras\<close>.\<close>

record ServiceDependencyORM =
  dep_record_id :: int
  dep_td_api_key :: string
  dep_position :: nat

record TorsiondriveOptimizationORM =
  opt_torsiondrive_id :: int
  opt_optimization_id :: int
  opt_key :: string

text \<open>
  A constraint is a dihedral (its atom indices) and, once set, its value. The dihedral
  template is the list of dihedrals without values.
\<close>

type_synonym constraint = "int list \<times> int option"

record OptimizationSpecification =
  spec_program :: string
  spec_constraints_set :: "constraint list"

record Molecule =
  mol_template :: string
  mol_geometry :: geometry

record InsertMetadata =
  meta_success :: bool
  error_string :: string

record 's TorsiondriveServiceState =
  torsiondrive_state :: 's
  molecule_template :: string
  dihedral_template :: "constraint list"

record 's ServiceQueueORM =
  svc_record_id :: int
  compute_tag :: string
  compute_priority :: int
  find_existing :: bool
  service_state :: "'s TorsiondriveServiceState"
  dependencies :: "ServiceDependencyORM list"

text \<open>
  The torsiondrive record: the provenance of each compute-history entry (creator,
  version, routine), the optimization specification, the owner, the optimizations
  submitted so far and the standard output collected so far.
\<close>

record TorsiondriveRecordORM =
  td_compute_history :: "(string \<times> string \<times> string) list"
  td_optimization_specification :: OptimizationSpecification
  td_owner_user_id :: "int option"
  td_owner_group_id :: "int option"
  td_optimizations :: "TorsiondriveOptimizationORM list"
  td_stdout :: string

record OptimizationRecordORM =
  initial_molecule_id :: int
  final_molecule_id :: "int option"
  energies :: "real list"

type_synonym task_results = "(string \<times> (geometry \<times> geometry \<times> real) list) list"

text \<open>
  What the service code calls outside this file: the \<^verbatim>\<open>torsiondrive\<close> package
  (\<^verbatim>\<open>td_api\<close>, with what it prints), \<^verbatim>\<open>serialize_key\<close>, the records the
  dependencies point to with the energy the torsiondrive record reads from them, the
  molecule socket and \<^verbatim>\<open>records.optimization.add\<close>.
\<close>

record 's td_env =
  td_version :: string
  update_state :: "'s \<Rightarrow> task_results \<Rightarrow> 's"
  next_jobs_from_state :: "'s \<Rightarrow> (string \<times> geometry list) list"
  captured_stdout :: "'s \<Rightarrow> task_results \<Rightarrow> string"
  collect_lowest_energies :: "'s \<Rightarrow> (int list \<times> real) list"
  grid_id_from_string :: "string \<Rightarrow> int list"
  serialize_key :: "int list \<Rightarrow> string"
  optimization_record :: "int \<Rightarrow> OptimizationRecordORM"
  optimization_energy :: "int \<Rightarrow> real option"
  molecules_get :: "int option list \<Rightarrow> exn + geometry list"
  optimization_add :: "Molecule list \<Rightarrow> OptimizationSpecification \<Rightarrow> string \<Rightarrow> int
     \<Rightarrow> int option \<Rightarrow> int option \<Rightarrow> bool \<Rightarrow> InsertMetadata \<times> int list"

text \<open>
  \<^verbatim>\<open>for con_num, k in enumerate(grid_id): constraints[con_num]["value"] = k\<close>:
  an index past the end of the template raises.
\<close>

fun set_constraint_values :: "constraint list \<Rightarrow> int list \<Rightarrow> exn + constraint list" where
  "set_constraint_values cs [] = Inr cs"
| "set_constraint_values [] (k # ks) = Inl IndexError"
| "set_constraint_values (c # cs) (k # ks) =
     (case set_constraint_values cs ks of
        Inl e \<Rightarrow> Inl e
      | Inr cs' \<Rightarrow> Inr ((fst c, Some k) # cs'))"

text \<open>
  The first half of the body of \<^verbatim>\<open>for td_api_key, geometries in next_tasks.items()\<close>:
  build the constraints and the molecules, submit the optimizations, and raise when the
  insertion reports no success. It yields the ids of the optimizations.
\<close>

definition add_optimizations ::
  "'s td_env \<Rightarrow> 's TorsiondriveServiceState \<Rightarrow> 's ServiceQueueORM \<Rightarrow> TorsiondriveRecordORM
     \<Rightarrow> string \<Rightarrow> geometry list \<Rightarrow> exn + int list" where
  "add_optimizations env state service_orm td_orm td_api_key geometries =
     (let grid_id = grid_id_from_string env td_api_key in
      case set_constraint_values (dihedral_template state) grid_id of
        Inl e \<Rightarrow> Inl e
      | Inr constraints \<Rightarrow>
          let opt_spec = td_optimization_specification td_orm;
              opt_spec2 = opt_spec\<lparr>spec_constraints_set :=
                            spec_constraints_set opt_spec @ constraints\<rparr>;
              constrained_mols =
                map (\<lambda>g. \<lparr>mol_template = molecule_template state, mol_geometry = g\<rparr>) geometries;
              added = optimization_add env constrained_mols opt_spec2
                        (compute_tag service_orm) (compute_priority service_orm)
                        (td_owner_user_id td_orm) (td_owner_group_id td_orm)
                        (find_existing service_orm);
              meta = fst added; opt_ids = snd added
          in
          if \<not> meta_success meta then
            Inl (RuntimeError (''Error adding optimizations - likely a developer error: ''
                                 @ error_string meta))
          else Inr opt_ids)"

text \<open>
  The second half, \<^verbatim>\<open>for position, opt_id in enumerate(opt_ids)\<close>: one dependency and
  one entry of the torsiondrive's optimizations per id.
\<close>

definition svc_deps :: "string \<Rightarrow> int list \<Rightarrow> ServiceDependencyORM list" where
  "svc_deps td_api_key opt_ids =
     map (\<lambda>(position, opt_id).
           \<lparr>dep_record_id = opt_id, dep_td_api_key = td_api_key, dep_position = position\<rparr>)
       (enumerate 0 opt_ids)"

definition opt_history :: "int \<Rightarrow> string \<Rightarrow> int list \<Rightarrow> TorsiondriveOptimizationORM list" where
  "opt_history torsiondrive_id key opt_ids =
     map (\<lambda>opt_id. \<lparr>opt_torsiondrive_id = torsiondrive_id, opt_optimization_id = opt_id,
                     opt_key = key\<rparr>) opt_ids"

text \<open>The loop over \<^verbatim>\<open>next_tasks.items()\<close>, on the pair of lists it appends to.\<close>

fun submit_loop ::
  "'s td_env \<Rightarrow> 's TorsiondriveServiceState \<Rightarrow> 's ServiceQueueORM \<Rightarrow> TorsiondriveRecordORM
     \<Rightarrow> (string \<times> geometry list) list
     \<Rightarrow> ServiceDependencyORM list \<times> TorsiondriveOptimizationORM list
     \<Rightarrow> exn + ServiceDependencyORM list \<times> TorsiondriveOptimizationORM list" where
  "submit_loop env state service_orm td_orm [] acc = Inr acc"
| "submit_loop env state service_orm td_orm ((td_api_key, geometries) # next_tasks) acc =
     (case add_optimizations env state service_orm td_orm td_api_key geometries of
        Inl e \<Rightarrow> Inl e
      | Inr opt_ids \<Rightarrow>
          submit_loop env state service_orm td_orm next_tasks
            (fst acc @ svc_deps td_api_key opt_ids,
             snd acc @ opt_history (svc_record_id service_orm)
                         (serialize_key env (grid_id_from_string env td_api_key)) opt_ids))"

text \<open>
  \<^verbatim>\<open>_submit_optimizations\<close>: the dependency list is emptied first, the list of
  optimizations is appended to.
\<close>

definition submit_optimizations ::
  "'s td_env \<Rightarrow> 's TorsiondriveServiceState \<Rightarrow> 's ServiceQueueORM \<Rightarrow> TorsiondriveRecordORM
     \<Rightarrow> (string \<times> geometry list) list
     \<Rightarrow> exn + 's ServiceQueueORM \<times> TorsiondriveRecordORM" where
  "submit_optimizations env state service_orm td_orm next_tasks =
     (case submit_loop env state service_orm td_orm next_tasks ([], td_optimizations td_orm) of
        Inl e \<Rightarrow> Inl e
      | Inr acc \<Rightarrow> Inr (service_orm\<lparr>dependencies := fst acc\<rparr>,
                        td_orm\<lparr>td_optimizations := snd acc\<rparr>))"

text \<open>
  The loop that fills \<^verbatim>\<open>task_results\<close>. \<^verbatim>\<open>mol_data[0]\<close>, \<^verbatim>\<open>mol_data[1]\<close> and
  \<^verbatim>\<open>energies[-1]\<close> raise when the list is too short.
\<close>

fun populate_task_results ::
  "'s td_env \<Rightarrow> ServiceDependencyORM list \<Rightarrow> task_results \<Rightarrow> exn + task_results" where
  "populate_task_results env [] task_results = Inr task_results"
| "populate_task_results env (task # complete_tasks) task_results =
     (let opt_record = optimization_record env (dep_record_id task) in
      case molecules_get env [Some (initial_molecule_id opt_record), final_molecule_id opt_record] of
        Inl e \<Rightarrow> Inl e
      | Inr mol_data \<Rightarrow>
          if length mol_data < 2 \<or> energies opt_record = [] then Inl IndexError
          else populate_task_results env complete_tasks
                 (dict_append (dep_td_api_key task)
                    (mol_data ! 0, mol_data ! 1, last (energies opt_record)) task_results))"

text \<open>The two dicts compared when the package has no further jobs.\<close>

definition lowest_energies :: "'s td_env \<Rightarrow> 's \<Rightarrow> (string \<times> real option) list" where
  "lowest_energies env state =
     foldl (\<lambda>d (x, y). dict_set (serialize_key env x) (Some y) d) []
       (collect_lowest_energies env state)"

definition our_energies :: "'s td_env \<Rightarrow> TorsiondriveRecordORM \<Rightarrow> (string \<times> real list) list" where
  "our_energies env td_orm =
     foldl (\<lambda>d x. case optimization_energy env (opt_optimization_id x) of
                     None \<Rightarrow> d
                   | Some e \<Rightarrow> dict_append (opt_key x) e d)
       (foldl (\<lambda>d x. dict_set (opt_key x) [] d) [] (td_optimizations td_orm))
       (td_optimizations td_orm)"

definition min_energies :: "'s td_env \<Rightarrow> TorsiondriveRecordORM \<Rightarrow> (string \<times> real option) list" where
  "min_energies env td_orm =
     map (\<lambda>(x, y). (x, if y \<noteq> [] then Some (min_list y) else None)) (our_energies env td_orm)"

text \<open>
  \<^verbatim>\<open>td_orm.compute_history[-1].provenance = {...}\<close>, on a history that is not empty.
\<close>

definition set_provenance :: "'s td_env \<Rightarrow> TorsiondriveRecordORM \<Rightarrow> TorsiondriveRecordORM" where
  "set_provenance env td_orm =
     td_orm\<lparr>td_compute_history := butlast (td_compute_history td_orm) @
       [(''torsiondrive'', td_version env, ''torsiondrive.td_api'')]\<rparr>"

text \<open>
  \<^verbatim>\<open>iterate_service\<close>. It returns the service row, the torsiondrive record and
  \<^verbatim>\<open>done\<close>, or raises; what becomes of the session after a raise is the caller's
  business. \<^verbatim>\<open>compute_history[-1]\<close> raises on an empty history.
\<close>

definition iterate_service ::
  "'s td_env \<Rightarrow> 's ServiceQueueORM \<Rightarrow> TorsiondriveRecordORM
     \<Rightarrow> exn + 's ServiceQueueORM \<times> TorsiondriveRecordORM \<times> bool" where
  "iterate_service env service_orm td_orm0 =
     (if td_compute_history td_orm0 = [] then Inl IndexError
      else
        let td_orm = set_provenance env td_orm0;
            state0 = service_state service_orm;
            complete_tasks = sort_key dep_position (dependencies service_orm)
        in
        case populate_task_results env complete_tasks [] of
          Inl e \<Rightarrow> Inl e
        | Inr task_results \<Rightarrow>
            let td_state = update_state env (torsiondrive_state state0) task_results;
                state = state0\<lparr>torsiondrive_state := td_state\<rparr>;
                next_tasks = next_jobs_from_state env td_state;
                stdout_append = CHR 0x0A #
                  captured_stdout env (torsiondrive_state state0) task_results
            in
            case (if length next_tasks > 0
                  then submit_optimizations env state service_orm td_orm next_tasks
                  else if \<not> dict_eq (lowest_energies env td_state) (min_energies env td_orm)
                  then Inl (RuntimeError
                    ''Minimum energies reported by the torsiondrive package do not match ours!'')
                  else Inr (service_orm, td_orm)) of
              Inl e \<Rightarrow> Inl e
            | Inr (service_orm', td_orm') \<Rightarrow>
                Inr (service_orm'\<lparr>service_state := state\<rparr>,
                     td_orm'\<lparr>td_stdout := td_stdout td_orm' @ stdout_append\<rparr>,
                     length next_tasks = 0))"

section \<open>Notions used to state the properties\<close>

text \<open>
  \<open>claimed_before a b\<close>: \<open>a\<close> has the higher priority, or the same priority and was
  created no later.
\<close>

definition claimed_before :: "TaskQueueORM \<Rightarrow> TaskQueueORM \<Rightarrow> bool" where
  "claimed_before a b \<longleftrightarrow>
     task_priority a > task_priority b \<or>
     (task_priority a = task_priority b \<and> task_created_on a \<le> task_created_on b)"

text \<open>The records with the given ids marked as claimed, all others as they were.\<close>

definition claimed_records ::
  "string \<Rightarrow> nat \<Rightarrow> int set \<Rightarrow> (int \<rightharpoonup> BaseRecordORM) \<Rightarrow> (int \<rightharpoonup> BaseRecordORM)" where
  "claimed_records manager_name now S recs =
     (\<lambda>rid. if rid \<in> S
            then map_option (\<lambda>r. r\<lparr>rec_status := running, rec_manager_name := Some manager_name,
                                   rec_modified_on := now\<rparr>) (recs rid)
            else recs rid)"

subsection \<open>What happens to one returned result\<close>

text \<open>
  The branch of the loop body an item takes, read off the database the loop has reached:
  the task is not found, its record is not running, the record belongs to another
  manager, the result is a \<^verbatim>\<open>FailedOperation\<close> with \<^verbatim>\<open>success\<close> false, the
  result is some other object with \<^verbatim>\<open>success\<close> false, the result is applied, or
  applying it raises.
\<close>

datatype verdict =
    NoSuchTask | NotRunning | OtherManager
  | RecognizedFailure | UnrecognizedFailure | Success | InternalError

definition item_task :: "database \<Rightarrow> int \<times> result \<Rightarrow> TaskQueueORM option" where
  "item_task db item = find (\<lambda>t. task_id t = fst item) (task_queue db)"

definition item_record_id :: "database \<Rightarrow> int \<times> result \<Rightarrow> int option" where
  "item_record_id db item = map_option task_record_id (item_task db item)"

definition item_record :: "database \<Rightarrow> int \<times> result \<Rightarrow> BaseRecordORM option" where
  "item_record db item =
     (case item_record_id db item of None \<Rightarrow> None | Some rid \<Rightarrow> base_record db rid)"

definition verdict :: "collaborators \<Rightarrow> string \<Rightarrow> database \<Rightarrow> int \<times> result \<Rightarrow> verdict" where
  "verdict env manager_name db item =
     (case item_record db item of
        None \<Rightarrow> NoSuchTask
      | Some r \<Rightarrow>
          if rec_status r \<noteq> running then NotRunning
          else if rec_manager_name r \<noteq> Some manager_name then OtherManager
          else if \<not> success (snd item) \<and> is_FailedOperation (snd item) then RecognizedFailure
          else if \<not> success (snd item) then UnrecognizedFailure
          else (case update_completed_task (completion_handler env) r (snd item) manager_name of
                  Returned _ \<Rightarrow> Success
                | Raised _ _ \<Rightarrow> InternalError))"

fun rejection_reason :: "verdict \<Rightarrow> string option" where
  "rejection_reason NoSuchTask = Some ''Task does not exist in the task queue''"
| "rejection_reason NotRunning = Some ''Task is not in a running state''"
| "rejection_reason OtherManager = Some ''Task is claimed by another manager''"
| "rejection_reason UnrecognizedFailure = Some ''Returned success=False, but not a FailedOperation''"
| "rejection_reason InternalError = Some ''Internal server error''"
| "rejection_reason RecognizedFailure = None"
| "rejection_reason Success = None"

text \<open>The record an item leaves behind, given the record it finds.\<close>

definition record_after ::
  "collaborators \<Rightarrow> string \<Rightarrow> BaseRecordORM \<Rightarrow> result \<Rightarrow> BaseRecordORM" where
  "record_after env manager_name r res =
     (if rec_status r \<noteq> running \<or> rec_manager_name r \<noteq> Some manager_name then r
      else if \<not> success res \<and> is_FailedOperation res then update_failed_task r res manager_name
      else if \<not> success res then
        update_failed_task r (internal_error
          ''Unexpected return from manager: Returned success != True, but not a FailedOperation'')
          manager_name
      else (case update_completed_task (completion_handler env) r res manager_name of
              Returned r' \<Rightarrow> r'
            | Raised dirty tb \<Rightarrow>
                update_failed_task r (internal_error (''Internal FractalServer Error:'' @ tb))
                  manager_name))"

text \<open>
  The database after one item, and the list of turns of a batch: each item with the
  database the loop has reached when the item's turn comes.
\<close>

definition db_after_item ::
  "collaborators \<Rightarrow> string \<Rightarrow> database \<Rightarrow> int \<times> result \<Rightarrow> database" where
  "db_after_item env manager_name db item =
     (case item_record_id db item of
        None \<Rightarrow> db
      | Some rid \<Rightarrow>
         (case base_record db rid of
            None \<Rightarrow> db
          | Some r \<Rightarrow> db\<lparr>base_record :=
              (base_record db)(rid \<mapsto> record_after env manager_name r (snd item))\<rparr>))"

fun turns ::
  "collaborators \<Rightarrow> string \<Rightarrow> database \<Rightarrow> (int \<times> result) list
     \<Rightarrow> (database \<times> (int \<times> result)) list" where
  "turns env manager_name db [] = []"
| "turns env manager_name db (item # items) =
     (db, item) # turns env manager_name (db_after_item env manager_name db item) items"

text \<open>
  What one item adds to each list the loop keeps: its rejection, its id among the
  successes or the failures, its notification, its record id among those to reset, and the
  operations on the session. \<open>per_turn f\<close> collects \<open>f\<close> over the turns of a batch.
\<close>

definition rejection :: "collaborators \<Rightarrow> string \<Rightarrow> database \<Rightarrow> int \<times> result
     \<Rightarrow> (int \<times> string) list" where
  "rejection env manager_name db item =
     (case rejection_reason (verdict env manager_name db item) of
        None \<Rightarrow> [] | Some reason \<Rightarrow> [(fst item, reason)])"

definition success_id :: "collaborators \<Rightarrow> string \<Rightarrow> database \<Rightarrow> int \<times> result \<Rightarrow> int list" where
  "success_id env manager_name db item =
     (if verdict env manager_name db item = Success then [fst item] else [])"

definition failure_id :: "collaborators \<Rightarrow> string \<Rightarrow> database \<Rightarrow> int \<times> result \<Rightarrow> int list" where
  "failure_id env manager_name db item =
     (if verdict env manager_name db item = RecognizedFailure then [fst item] else [])"

definition notification :: "collaborators \<Rightarrow> string \<Rightarrow> database \<Rightarrow> int \<times> result
     \<Rightarrow> (int \<times> RecordStatusEnum) list" where
  "notification env manager_name db item =
     (case item_record_id db item of
        None \<Rightarrow> []
      | Some rid \<Rightarrow>
          (case verdict env manager_name db item of
             Success \<Rightarrow> [(rid, complete)]
           | RecognizedFailure \<Rightarrow> [(rid, error)]
           | UnrecognizedFailure \<Rightarrow> [(rid, error)]
           | InternalError \<Rightarrow> [(rid, error)]
           | _ \<Rightarrow> []))"

definition reset_wanted :: "collaborators \<Rightarrow> string \<Rightarrow> database \<Rightarrow> int \<times> result \<Rightarrow> int list" where
  "reset_wanted env manager_name db item =
     (case item_record_id db item of
        None \<Rightarrow> []
      | Some rid \<Rightarrow>
          (case base_record db rid of
             None \<Rightarrow> []
           | Some r \<Rightarrow>
               if verdict env manager_name db item = RecognizedFailure \<and>
                  auto_reset_enabled env \<and>
                  should_reset env (update_failed_task r (snd item) manager_name)
               then [rid] else []))"

definition savepoint_ops :: "verdict \<Rightarrow> session_op list" where
  "savepoint_ops v =
     (case v of
        NoSuchTask \<Rightarrow> []
      | InternalError \<Rightarrow> [begin_nested, nested_rollback, begin_nested, nested_commit]
      | _ \<Rightarrow> [begin_nested, nested_commit])"

definition item_ops :: "collaborators \<Rightarrow> string \<Rightarrow> database \<Rightarrow> int \<times> result \<Rightarrow> session_op list" where
  "item_ops env manager_name db item =
     select_task_for_update (fst item) # savepoint_ops (verdict env manager_name db item)"

definition per_turn ::
  "(database \<Rightarrow> int \<times> result \<Rightarrow> 'a list)
     \<Rightarrow> collaborators \<Rightarrow> string \<Rightarrow> database \<Rightarrow> (int \<times> result) list \<Rightarrow> 'a list" where
  "per_turn f env manager_name db items =
     concat (map (\<lambda>(d, item). f d item) (turns env manager_name db items))"

text \<open>
  A record the submitting manager cannot touch: none, not running, or another manager's.
\<close>

definition out_of_reach :: "string \<Rightarrow> BaseRecordORM option \<Rightarrow> bool" where
  "out_of_reach manager_name r \<longleftrightarrow>
     (case r of None \<Rightarrow> True
      | Some r' \<Rightarrow> rec_status r' \<noteq> running \<or> rec_manager_name r' \<noteq> Some manager_name)"

text \<open>The manager row with its three counters raised.\<close>

definition counted :: "ComputeManagerORM \<Rightarrow> nat \<Rightarrow> nat \<Rightarrow> nat \<Rightarrow> ComputeManagerORM" where
  "counted manager s f r =
     manager\<lparr>mgr_successes := mgr_successes manager + int s,
             mgr_failures := mgr_failures manager + int f,
             mgr_rejected := mgr_rejected manager + int r\<rparr>"

text \<open>Two databases that differ at most in the record with the given id.\<close>

definition agree_off :: "int \<Rightarrow> database \<Rightarrow> database \<Rightarrow> bool" where
  "agree_off rid d1 d2 \<longleftrightarrow>
     task_queue d1 = task_queue d2 \<and> compute_manager d1 = compute_manager d2 \<and>
     (\<forall>k. k \<noteq> rid \<longrightarrow> base_record d1 k = base_record d2 k)"

subsection \<open>A small database to evaluate on\<close>

text \<open>
  Four waiting tasks, a manager \<open>m1\<close> that serves \<open>cpu\<close> first and anything after it
  and has no \<open>rdkit\<close>, and an inactive manager \<open>m2\<close>.
\<close>

definition example_tasks :: "TaskQueueORM list" where
  "example_tasks =
     [\<lparr>task_id = 1, task_record_id = 11, task_tag = ''gpu'', task_priority = 1,
       task_required_programs = [''psi4''], task_created_on = 10, task_available = True\<rparr>,
      \<lparr>task_id = 2, task_record_id = 12, task_tag = ''cpu'', task_priority = 2,
       task_required_programs = [''psi4''], task_created_on = 20, task_available = True\<rparr>,
      \<lparr>task_id = 3, task_record_id = 13, task_tag = ''cpu'', task_priority = 2,
       task_required_programs = [''rdkit''], task_created_on = 5, task_available = True\<rparr>,
      \<lparr>task_id = 4, task_record_id = 14, task_tag = ''cpu'', task_priority = 1,
       task_required_programs = [''psi4''], task_created_on = 7, task_available = True\<rparr>]"

definition example_record :: BaseRecordORM where
  "example_record = \<lparr>rec_status = waiting, rec_manager_name = None, rec_modified_on = 0,
     rec_compute_history = []\<rparr>"

definition example_manager :: ComputeManagerORM where
  "example_manager = \<lparr>mgr_name = ''m1'', mgr_status = active,
     mgr_programs = [''psi4'', ''geometric''], mgr_tags = [''cpu'', ''*''],
     mgr_successes = 0, mgr_failures = 0, mgr_rejected = 0, mgr_claimed = 0\<rparr>"

definition example_db :: database where
  "example_db = \<lparr>task_queue = example_tasks,
     base_record = [11 \<mapsto> example_record, 12 \<mapsto> example_record, 13 \<mapsto> example_record,
                    14 \<mapsto> example_record],
     compute_manager = [''m1'' \<mapsto> example_manager,
                        ''m2'' \<mapsto> example_manager\<lparr>mgr_name := ''m2'', mgr_status := inactive\<rparr>]\<rparr>"

definition example_env :: collaborators where
  "example_env = \<lparr>
     completion_handler = (\<lambda>r res m.
        if res = OtherResult True 0 then Raised (r\<lparr>rec_modified_on := 999\<rparr>) ''boom''
        else Returned r),
     auto_reset_enabled = True,
     should_reset = (\<lambda>r. length (rec_compute_history r) \<le> 1),
     reset = (\<lambda>ids db. db\<lparr>base_record := (\<lambda>rid.
        if rid \<in> set ids
        then map_option (\<lambda>r. r\<lparr>rec_status := waiting, rec_manager_name := None\<rparr>)
               (base_record db rid)
        else base_record db rid)\<rparr>)\<rparr>"

text \<open>
  The same database with the records 11, 12 and 13 running on \<open>m1\<close> and 14 complete,
  and a batch for it: a recognized failure, a result whose completion raises (the
  handler of \<open>example_env\<close> raises on payload 0), a success, a stale result and a result
  for a task that does not exist.
\<close>

definition example_running_db :: database where
  "example_running_db = example_db\<lparr>base_record :=
     [11 \<mapsto> example_record\<lparr>rec_status := running, rec_manager_name := Some ''m1''\<rparr>,
      12 \<mapsto> example_record\<lparr>rec_status := running, rec_manager_name := Some ''m1''\<rparr>,
      13 \<mapsto> example_record\<lparr>rec_status := running, rec_manager_name := Some ''m1''\<rparr>,
      14 \<mapsto> example_record\<lparr>rec_status := complete\<rparr>]\<rparr>"

definition example_results :: "(int \<times> result) list" where
  "example_results =
     [(1, FailedOperation False ''compute_error'' ''no convergence''),
      (2, OtherResult True 0),
      (3, OtherResult True 7),
      (4, OtherResult True 7),
      (9, OtherResult True 7)]"

subsection \<open>Torsiondrive services\<close>

text \<open>The ids the submission of one entry of the batch yields (none when it raises).\<close>

definition submitted_ids ::
  "'s td_env \<Rightarrow> 's TorsiondriveServiceState \<Rightarrow> 's ServiceQueueORM \<Rightarrow> TorsiondriveRecordORM
     \<Rightarrow> string \<times> geometry list \<Rightarrow> int list" where
  "submitted_ids env state service_orm td_orm task =
     (case add_optimizations env state service_orm td_orm (fst task) (snd task) of
        Inl e \<Rightarrow> [] | Inr opt_ids \<Rightarrow> opt_ids)"

text \<open>
  The state and the next batch the package arrives at from the results collected for
  the dependencies.
\<close>

definition next_state :: "'s td_env \<Rightarrow> 's ServiceQueueORM \<Rightarrow> task_results
     \<Rightarrow> 's TorsiondriveServiceState" where
  "next_state env service_orm task_results =
     (service_state service_orm)\<lparr>torsiondrive_state :=
        update_state env (torsiondrive_state (service_state service_orm)) task_results\<rparr>"

definition next_tasks_of :: "'s td_env \<Rightarrow> 's ServiceQueueORM \<Rightarrow> task_results
     \<Rightarrow> (string \<times> geometry list) list" where
  "next_tasks_of env service_orm task_results =
     next_jobs_from_state env (torsiondrive_state (next_state env service_orm task_results))"

definition stdout_appended :: "'s td_env \<Rightarrow> 's ServiceQueueORM \<Rightarrow> task_results
     \<Rightarrow> TorsiondriveRecordORM \<Rightarrow> TorsiondriveRecordORM" where
  "stdout_appended env service_orm task_results td_orm =
     td_orm\<lparr>td_stdout := td_stdout td_orm @ CHR 0x0A #
       captured_stdout env (torsiondrive_state (service_state service_orm)) task_results\<rparr>"

text \<open>
  A package that asks for two geometries at one grid point until its state reaches 5,
  an insertion that numbers the optimizations from 100, and a service that waits for
  three optimizations.
\<close>

definition example_td_env :: "nat td_env" where
  "example_td_env = \<lparr>
     td_version = ''1.1'',
     update_state = (\<lambda>s tr. s + length tr),
     next_jobs_from_state = (\<lambda>s. if s < 5 then [(''[90]'', [[0, 1], [1, 1]])] else []),
     captured_stdout = (\<lambda>s tr. ''step''),
     collect_lowest_energies = (\<lambda>s. [([90], 2)]),
     grid_id_from_string = (\<lambda>k. [90]),
     serialize_key = (\<lambda>g. ''[90]''),
     optimization_record = (\<lambda>i. \<lparr>initial_molecule_id = 1, final_molecule_id = Some 2,
                                  energies = [3, 2]\<rparr>),
     optimization_energy = (\<lambda>i. if i = 7 then None else Some (if i = 8 then 2 else 3)),
     molecules_get = (\<lambda>ids. Inr [[0, 1], [1, 1]]),
     optimization_add = (\<lambda>mols spec tag priority user grp existing.
        (\<lparr>meta_success = True, error_string = []\<rparr>,
         map (\<lambda>(i, mol). 100 + int i) (enumerate 0 mols)))\<rparr>"

definition example_service :: "nat ServiceQueueORM" where
  "example_service = \<lparr>svc_record_id = 40, compute_tag = ''cpu'', compute_priority = 1,
     find_existing = True,
     service_state = \<lparr>torsiondrive_state = 0, molecule_template = ''hooh'',
                      dihedral_template = [([0, 1, 2, 3], None)]\<rparr>,
     dependencies =
       [\<lparr>dep_record_id = 7, dep_td_api_key = ''[0]'', dep_position = 0\<rparr>,
        \<lparr>dep_record_id = 8, dep_td_api_key = ''[0]'', dep_position = 1\<rparr>,
        \<lparr>dep_record_id = 9, dep_td_api_key = ''[0]'', dep_position = 2\<rparr>]\<rparr>"

definition example_td_record :: TorsiondriveRecordORM where
  "example_td_record = \<lparr>
     td_compute_history = [(''x'', ''y'', ''z'')],
     td_optimization_specification = \<lparr>spec_program = ''geometric'', spec_constraints_set = []\<rparr>,
     td_owner_user_id = None, td_owner_group_id = None,
     td_optimizations =
       [\<lparr>opt_torsiondrive_id = 40, opt_optimization_id = 7, opt_key = ''[90]''\<rparr>,
        \<lparr>opt_torsiondrive_id = 40, opt_optimization_id = 8, opt_key = ''[90]''\<rparr>,
        \<lparr>opt_torsiondrive_id = 40, opt_optimization_id = 9, opt_key = ''[90]''\<rparr>],
     td_stdout = ''start''\<rparr>"

section \<open>Properties of claiming\<close>

subsection \<open>What the loop leaves alone\<close>

lemma claim_record_task_queue: "task_queue (claim_record m now db t) = task_queue db"
  by (simp add: claim_record_def split: option.splits)

lemma claim_record_compute_manager: "compute_manager (claim_record m now db t) = compute_manager db"
  by (simp add: claim_record_def split: option.splits)

lemma claim_records_task_queue: "task_queue (foldl (claim_record m now) db ts) = task_queue db"
  by (induction ts arbitrary: db) (simp_all add: claim_record_task_queue)

lemma claim_records_compute_manager:
  "compute_manager (foldl (claim_record m now) db ts) = compute_manager db"
  by (induction ts arbitrary: db) (simp_all add: claim_record_compute_manager)


lemma claim_loop_compute_manager:
  "claim_loop m now progs limit tags db found = (db', found') \<Longrightarrow>
     compute_manager db' = compute_manager db"
proof (induction tags arbitrary: db found)
  case Nil
  then show ?case by simp
next
  case (Cons tag tags)
  show ?case
  proof (cases "limit - int (length found) \<le> 0")
    case True
    with Cons.prems show ?thesis by simp
  next
    case False
    with Cons.prems have "compute_manager db' = compute_manager (foldl (claim_record m now) db
        (select_tasks db progs tag (limit - int (length found))))"
      by (intro Cons.IH) (simp add: Let_def)
    then show ?thesis by (simp add: claim_records_compute_manager)
  qed
qed

lemma select_tasks_claimable:
  "t \<in> set (select_tasks db progs tag n) \<Longrightarrow> t \<in> set (task_queue db) \<and> claimable db progs tag t"
  by (auto simp: select_tasks_def dest!: in_set_takeD)

lemma select_tasks_sorted: "sorted (map claim_order (select_tasks db progs tag n))"
proof -
  have "sorted (take (nat n) (map claim_order
          (sort_key claim_order (filter (claimable db progs tag) (task_queue db)))))"
    by (rule sorted_wrt_take) simp
  then show ?thesis by (simp add: select_tasks_def take_map)
qed

lemma select_tasks_length: "0 < n \<Longrightarrow> int (length (select_tasks db progs tag n)) \<le> n"
  by (simp add: select_tasks_def)

lemma claim_loop_length:
  "claim_loop m now progs limit tags db found = (db', found') \<Longrightarrow>
     int (length found') \<le> max (int (length found)) limit"
proof (induction tags arbitrary: db found)
  case Nil
  then show ?case by simp
next
  case (Cons tag tags)
  show ?case
  proof (cases "limit - int (length found) \<le> 0")
    case True
    with Cons.prems show ?thesis by simp
  next
    case False
    let ?new = "select_tasks db progs tag (limit - int (length found))"
    from False Cons.prems
    have "claim_loop m now progs limit tags (foldl (claim_record m now) db ?new) (found @ ?new)
            = (db', found')"
      by (simp add: Let_def)
    then have "int (length found') \<le> max (int (length (found @ ?new))) limit"
      by (rule Cons.IH)
    moreover have "int (length ?new) \<le> limit - int (length found)"
      using False by (intro select_tasks_length) simp
    ultimately show ?thesis by simp
  qed
qed

lemmas example_defs = example_db_def example_tasks_def example_record_def example_manager_def

lemmas claim_defs = claim_tasks_def calculate_limit_def select_tasks_def claimable_def
  record_status_def claim_order_def claim_record_def Let_def

subsection \<open>Order and selection\<close>

lemma claim_order_le: "claim_order a \<le> claim_order b \<longleftrightarrow> claimed_before a b"
  by (auto simp: claim_order_def claimed_before_def)

lemma select_tasks_claimed_before:
  "sorted_wrt claimed_before (select_tasks db progs tag n)"
  using select_tasks_sorted [of db progs tag n]
  by (simp add: sorted_map claim_order_le)

lemma claimed_records_empty: "claimed_records m now {} recs = recs"
  by (simp add: claimed_records_def)

lemma claimed_records_union:
  "claimed_records m now T (claimed_records m now S recs) = claimed_records m now (S \<union> T) recs"
  by (rule ext) (simp add: claimed_records_def option.map_comp comp_def)

lemma claim_record_base_record:
  "base_record (claim_record m now db t) = claimed_records m now {task_record_id t} (base_record db)"
  by (rule ext) (simp add: claim_record_def claimed_records_def split: option.splits)

lemma claim_records_base_record:
  "base_record (foldl (claim_record m now) db ts) =
     claimed_records m now (task_record_id ` set ts) (base_record db)"
proof (induction ts arbitrary: db)
  case Nil
  show ?case by (simp add: claimed_records_empty)
next
  case (Cons t ts)
  have "{task_record_id t} \<union> task_record_id ` set ts = task_record_id ` set (t # ts)"
    by auto
  then show ?case
    by (simp add: Cons.IH claim_record_base_record claimed_records_union)
qed

lemma claimable_claimed_records:
  assumes "base_record db1 = claimed_records m now S (base_record db)"
  shows "claimable db1 progs tag t \<longleftrightarrow> claimable db progs tag t \<and> task_record_id t \<notin> S"
  using assms
  by (auto simp: claimable_def record_status_def claimed_records_def split: if_splits)

text \<open>
  The loop, tag by tag: the tasks found for the \<open>i\<close>-th tag are the first
  \<open>limit - already found\<close> of the claimable tasks in claim order, among those whose
  record no earlier tag has claimed.
\<close>

lemma claim_loop_exact:
  "claim_loop m now progs limit tags db found = (db', found') \<Longrightarrow>
     \<exists>segs. length segs = length tags \<and> found' = found @ concat segs \<and>
       base_record db' = claimed_records m now (task_record_id ` set (concat segs)) (base_record db) \<and>
       (\<forall>i<length tags. segs ! i =
          take (nat (limit - int (length (found @ concat (take i segs)))))
            (sort_key claim_order
              (filter (\<lambda>t. claimable db progs (tags ! i) t \<and>
                           task_record_id t \<notin> task_record_id ` set (concat (take i segs)))
                 (task_queue db))))"
proof (induction tags arbitrary: db found)
  case Nil
  then show ?case by (simp add: claimed_records_empty)
next
  case (Cons tag tags)
  show ?case
  proof (cases "limit - int (length found) \<le> 0")
    case True
    with Cons.prems have eq: "found' = found" "db' = db" by simp_all
    let ?segs = "replicate (length (tag # tags)) ([] :: TaskQueueORM list)"
    have nil: "concat (take i ?segs) = []" for i
      by (auto dest: in_set_takeD)
    have "\<forall>i<length (tag # tags). ?segs ! i =
          take (nat (limit - int (length (found @ concat (take i ?segs)))))
            (sort_key claim_order
              (filter (\<lambda>t. claimable db progs ((tag # tags) ! i) t \<and>
                           task_record_id t \<notin> task_record_id ` set (concat (take i ?segs)))
                 (task_queue db)))"
      using True unfolding nil by (simp add: nth_Cons')
    moreover have "concat ?segs = []" by simp
    ultimately show ?thesis
      unfolding eq
      by (intro exI [of _ ?segs]) (simp add: claimed_records_empty)
  next
    case False
    let ?new = "select_tasks db progs tag (limit - int (length found))"
    let ?db1 = "foldl (claim_record m now) db ?new"
    let ?rids = "\<lambda>ts. task_record_id ` set ts"
    from False Cons.prems
    have "claim_loop m now progs limit tags ?db1 (found @ ?new) = (db', found')"
      by (simp add: Let_def)
    from Cons.IH [OF this] obtain segs where
      len: "length segs = length tags" and
      found': "found' = (found @ ?new) @ concat segs" and
      recs: "base_record db' = claimed_records m now (?rids (concat segs)) (base_record ?db1)" and
      segs: "\<forall>i<length tags. segs ! i =
          take (nat (limit - int (length ((found @ ?new) @ concat (take i segs)))))
            (sort_key claim_order
              (filter (\<lambda>t. claimable ?db1 progs (tags ! i) t \<and>
                           task_record_id t \<notin> ?rids (concat (take i segs)))
                 (task_queue ?db1)))"
      by blast
    have db1: "base_record ?db1 = claimed_records m now (?rids ?new) (base_record db)"
      by (rule claim_records_base_record)
    have recs': "base_record db' =
        claimed_records m now (?rids (concat (?new # segs))) (base_record db)"
      unfolding recs db1 claimed_records_union by (simp add: image_Un)
    have new: "?new = take (nat (limit - int (length found)))
                 (sort_key claim_order (filter (claimable db progs tag) (task_queue db)))"
      by (simp add: select_tasks_def)
    have "(?new # segs) ! i =
          take (nat (limit - int (length (found @ concat (take i (?new # segs))))))
            (sort_key claim_order
              (filter (\<lambda>t. claimable db progs ((tag # tags) ! i) t \<and>
                           task_record_id t \<notin> ?rids (concat (take i (?new # segs))))
                 (task_queue db)))" if "i < length (tag # tags)" for i
    proof (cases i)
      case 0
      then show ?thesis using new by simp
    next
      case (Suc j)
      with that have j: "j < length tags" by simp
      have filt: "(claimable ?db1 progs (tags ! j) t \<and>
                    task_record_id t \<notin> ?rids (concat (take j segs))) \<longleftrightarrow>
                  (claimable db progs (tags ! j) t \<and>
                    task_record_id t \<notin> ?rids (?new @ concat (take j segs)))" for t
        unfolding claimable_claimed_records [OF db1] by (auto simp: image_Un)
      from segs j have "segs ! j =
          take (nat (limit - int (length ((found @ ?new) @ concat (take j segs)))))
            (sort_key claim_order
              (filter (\<lambda>t. claimable ?db1 progs (tags ! j) t \<and>
                           task_record_id t \<notin> ?rids (concat (take j segs)))
                 (task_queue ?db1)))"
        by blast
      then have "segs ! j =
          take (nat (limit - int (length (found @ ?new @ concat (take j segs)))))
            (sort_key claim_order
              (filter (\<lambda>t. claimable db progs (tags ! j) t \<and>
                           task_record_id t \<notin> ?rids (?new @ concat (take j segs)))
                 (task_queue db)))"
        unfolding filt claim_records_task_queue by simp
      then show ?thesis using Suc by simp
    qed
    with len found' recs' show ?thesis
      by (intro exI [of _ "?new # segs"]) simp
  qed
qed

lemma claim_tasks_Inr:
  assumes "claim_tasks L now db mname limit = (Inr found, db')"
  shows "\<exists>manager db1.
    compute_manager db mname = Some manager \<and> mgr_status manager = active \<and>
    claim_loop mname now (mgr_programs manager) (calculate_limit L limit) (mgr_tags manager) db []
       = (db1, found) \<and>
    db' = db1\<lparr>compute_manager := (compute_manager db1)(mname \<mapsto>
             manager\<lparr>mgr_claimed := mgr_claimed manager + int (length found)\<rparr>)\<rparr>"
  using assms
  by (auto simp: claim_tasks_def Let_def split: option.splits if_splits prod.splits)


subsection \<open>The claims about \<^verbatim>\<open>claim_tasks\<close>\<close>

text \<open>
  C2. A successful \<open>claim_tasks\<close> call goes through the manager's tags in their
  configured order. The tasks it returns are the concatenation of one segment per tag;
  the segment of a tag holds only tasks of the queue whose record is waiting, whose
  required programs are among the manager's programs and whose tag is the manager's tag
  (or the manager's tag is \<open>*\<close>); it is ordered by priority descending, then creation
  time ascending; and it is exactly the first \<open>limit - already found\<close> such tasks in that
  order that no earlier tag has claimed.
\<close>

theorem claim_tasks_selection:
  assumes "claim_tasks L now db mname limit = (Inr found, db')"
  shows "\<exists>manager segs.
     compute_manager db mname = Some manager \<and> mgr_status manager = active \<and>
     length segs = length (mgr_tags manager) \<and> found = concat segs \<and>
     (\<forall>i<length (mgr_tags manager).
        segs ! i =
          take (nat (calculate_limit L limit - int (length (concat (take i segs)))))
            (sort_key claim_order
              (filter (\<lambda>t. claimable db (mgr_programs manager) (mgr_tags manager ! i) t \<and>
                           task_record_id t \<notin> task_record_id ` set (concat (take i segs)))
                 (task_queue db))) \<and>
        sorted_wrt claimed_before (segs ! i) \<and>
        (\<forall>t\<in>set (segs ! i).
           t \<in> set (task_queue db) \<and> record_status db t = Some waiting \<and>
           set (task_required_programs t) \<subseteq> set (mgr_programs manager) \<and>
           (mgr_tags manager ! i = ''*'' \<or> task_tag t = mgr_tags manager ! i)))"
proof -
  from claim_tasks_Inr [OF assms] obtain manager :: ComputeManagerORM and db1 where
    m: "compute_manager db mname = Some manager" "mgr_status manager = active" and
    loop: "claim_loop mname now (mgr_programs manager) (calculate_limit L limit)
             (mgr_tags manager) db [] = (db1, found)"
    by blast
  let ?cand = "\<lambda>segs i. sort_key claim_order
              (filter (\<lambda>t. claimable db (mgr_programs manager) (mgr_tags manager ! i) t \<and>
                           task_record_id t \<notin> task_record_id ` set (concat (take i segs)))
                 (task_queue db))"
  from claim_loop_exact [OF loop] obtain segs where
    len: "length segs = length (mgr_tags manager)" and
    found: "found = concat segs" and
    segs: "\<forall>i<length (mgr_tags manager). segs ! i =
          take (nat (calculate_limit L limit - int (length (concat (take i segs))))) (?cand segs i)"
    by auto
  have "sorted_wrt claimed_before (segs ! i) \<and>
        (\<forall>t\<in>set (segs ! i).
           t \<in> set (task_queue db) \<and> record_status db t = Some waiting \<and>
           set (task_required_programs t) \<subseteq> set (mgr_programs manager) \<and>
           (mgr_tags manager ! i = ''*'' \<or> task_tag t = mgr_tags manager ! i))"
    if i: "i < length (mgr_tags manager)" for i
  proof -
    from segs i obtain n where eq: "segs ! i = take n (?cand segs i)"
      by blast
    have "sorted (map claim_order (?cand segs i))"
      by simp
    then have "sorted_wrt claimed_before (?cand segs i)"
      by (simp add: sorted_map claim_order_le)
    then have "sorted_wrt claimed_before (segs ! i)"
      unfolding eq by (rule sorted_wrt_take)
    moreover have "set (segs ! i) \<subseteq> set (?cand segs i)"
      unfolding eq by (rule set_take_subset)
    then have "\<forall>t\<in>set (segs ! i). t \<in> set (task_queue db) \<and>
        claimable db (mgr_programs manager) (mgr_tags manager ! i) t"
      by auto
    ultimately show ?thesis
      by (simp add: claimable_def)
  qed
  with segs have "\<forall>i<length (mgr_tags manager).
        segs ! i =
          take (nat (calculate_limit L limit - int (length (concat (take i segs))))) (?cand segs i) \<and>
        sorted_wrt claimed_before (segs ! i) \<and>
        (\<forall>t\<in>set (segs ! i).
           t \<in> set (task_queue db) \<and> record_status db t = Some waiting \<and>
           set (task_required_programs t) \<subseteq> set (mgr_programs manager) \<and>
           (mgr_tags manager ! i = ''*'' \<or> task_tag t = mgr_tags manager ! i))"
    by blast
  with m len found show ?thesis
    by blast
qed

theorem claim_tasks_selection_witness:
  "claim_tasks 5 100 example_db ''m1'' None =
     (Inr [example_tasks ! 1, example_tasks ! 3, example_tasks ! 0],
      snd (claim_tasks 5 100 example_db ''m1'' None)) \<and>
   (\<exists>manager. compute_manager example_db ''m1'' = Some manager \<and> mgr_status manager = active)"
proof -
  have e: "claim_tasks 5 100 example_db ''m1'' None =
     (Inr [example_tasks ! 1, example_tasks ! 3, example_tasks ! 0],
      snd (claim_tasks 5 100 example_db ''m1'' None))"
    by (simp add: prod_eq_iff example_defs claim_defs)
  from claim_tasks_selection [OF e] have
    "\<exists>manager. compute_manager example_db ''m1'' = Some manager \<and> mgr_status manager = active"
    by blast
  with e show ?thesis by blast
qed




text \<open>
  C10. The limit in force is never above the configured \<open>manager_tasks_claim\<close>,
  whatever the caller asks for; a successful \<open>claim_tasks\<close> call returns no more tasks
  than the limit in force, hence no more than the configured limit; and once that many
  tasks are found the loop over the tags stops without selecting.
\<close>

theorem claim_tasks_limit:
  assumes "claim_tasks L now db mname limit = (Inr found, db')"
  shows "calculate_limit L limit \<le> L \<and>
         int (length found) \<le> max 0 (calculate_limit L limit) \<and>
         (0 \<le> L \<longrightarrow> int (length found) \<le> L) \<and>
         (\<forall>progs tags db0 found0. calculate_limit L limit \<le> int (length found0) \<longrightarrow>
            claim_loop mname now progs (calculate_limit L limit) tags db0 found0 = (db0, found0))"
proof -
  from claim_tasks_Inr [OF assms] obtain manager :: ComputeManagerORM and db1 where
    loop: "claim_loop mname now (mgr_programs manager) (calculate_limit L limit)
             (mgr_tags manager) db [] = (db1, found)"
    by blast
  have clamp: "calculate_limit L limit \<le> L"
    by (simp add: calculate_limit_def split: option.splits)
  from claim_loop_length [OF loop]
  have len: "int (length found) \<le> max 0 (calculate_limit L limit)"
    by simp
  have stop: "claim_loop mname now progs (calculate_limit L limit) tags db0 found0 = (db0, found0)"
    if "calculate_limit L limit \<le> int (length found0)" for progs tags db0 found0
    using that by (cases tags) simp_all
  from clamp len stop show ?thesis by auto
qed

theorem claim_tasks_limit_witness:
  "claim_tasks 1 100 example_db ''m1'' None =
     (Inr [example_tasks ! 1], snd (claim_tasks 1 100 example_db ''m1'' None)) \<and>
   (0::int) \<le> 1 \<and> int (length [example_tasks ! 1]) \<le> 1 \<and>
   calculate_limit 1 (Some 7) \<le> int (length [example_tasks ! 1])"
proof -
  have e: "claim_tasks 1 100 example_db ''m1'' None =
     (Inr [example_tasks ! 1], snd (claim_tasks 1 100 example_db ''m1'' None))"
    by (simp add: prod_eq_iff example_defs claim_defs)
  from claim_tasks_limit [OF e] have "int (length [example_tasks ! 1]) \<le> 1"
    by simp
  moreover have "calculate_limit 1 (Some 7) \<le> int (length [example_tasks ! 1])"
    by (simp add: calculate_limit_def)
  ultimately show ?thesis using e by simp
qed

section \<open>Properties of returning finished tasks\<close>

subsection \<open>One item, and the loop over a batch\<close>

lemmas step_defs = process_result_def verdict_def item_record_def item_record_id_def item_task_def
  session_do_def write_record_def reject_def notify_def Let_def

lemma step_task_queue:
  "task_queue (session_db (process_result env m st x)) = task_queue (session_db st)"
  by (simp add: step_defs split: option.splits attempt.splits)

lemma step_compute_manager:
  "compute_manager (session_db (process_result env m st x)) = compute_manager (session_db st)"
  by (simp add: step_defs split: option.splits attempt.splits)

lemma step_tasks_success:
  "tasks_success (process_result env m st x) =
     tasks_success st @ (if verdict env m (session_db st) x = Success then [fst x] else [])"
  by (simp add: step_defs split: option.splits attempt.splits)

lemma step_tasks_failures:
  "tasks_failures (process_result env m st x) =
     tasks_failures st @ (if verdict env m (session_db st) x = RecognizedFailure then [fst x] else [])"
  by (simp add: step_defs split: option.splits attempt.splits)

lemma step_tasks_rejected:
  "tasks_rejected (process_result env m st x) =
     tasks_rejected st @
       (case rejection_reason (verdict env m (session_db st) x) of
          None \<Rightarrow> [] | Some reason \<Rightarrow> [(fst x, reason)])"
  by (simp add: step_defs split: option.splits attempt.splits)

lemma step_base_record:
  "base_record (session_db (process_result env m st x)) =
     (case item_record_id (session_db st) x of
        None \<Rightarrow> base_record (session_db st)
      | Some rid \<Rightarrow>
         (case base_record (session_db st) rid of
            None \<Rightarrow> base_record (session_db st)
          | Some r \<Rightarrow> (base_record (session_db st))(rid \<mapsto> record_after env m r (snd x))))"
  by (auto simp: step_defs record_after_def fun_upd_idem split: option.splits attempt.splits)

lemma step_session_db:
  "session_db (process_result env m st x) = db_after_item env m (session_db st) x"
  by (auto simp: step_defs db_after_item_def record_after_def fun_upd_idem
      split: option.splits attempt.splits)

lemma step_tasks_rejected':
  "tasks_rejected (process_result env m st x) =
     tasks_rejected st @ rejection env m (session_db st) x"
  by (simp add: step_tasks_rejected rejection_def)

lemma step_all_notifications:
  "all_notifications (process_result env m st x) =
     all_notifications st @ notification env m (session_db st) x"
  by (simp add: step_defs notification_def split: option.splits attempt.splits)

lemma step_to_be_reset:
  "to_be_reset (process_result env m st x) =
     to_be_reset st @ reset_wanted env m (session_db st) x"
  by (simp add: step_defs reset_wanted_def split: option.splits attempt.splits)

lemma step_session_ops:
  "session_ops (process_result env m st x) =
     session_ops st @ select_task_for_update (fst x) #
       savepoint_ops (verdict env m (session_db st) x)"
  by (simp add: step_defs savepoint_ops_def split: option.splits attempt.splits)

lemma per_turn_Nil: "per_turn f env m db [] = []"
  by (simp add: per_turn_def)

lemma per_turn_Cons:
  "per_turn f env m db (x # xs) = f db x @ per_turn f env m (db_after_item env m db x) xs"
  by (simp add: per_turn_def)

lemma turns_append:
  "turns env m db (xs @ ys) = turns env m db xs @ turns env m (foldl (db_after_item env m) db xs) ys"
  by (induction xs arbitrary: db) simp_all

lemma per_turn_append:
  "per_turn f env m db (xs @ ys) =
     per_turn f env m db xs @ per_turn f env m (foldl (db_after_item env m) db xs) ys"
  by (simp add: per_turn_def turns_append)

lemma length_turns: "length (turns env m db xs) = length xs"
  by (induction xs arbitrary: db) simp_all

lemma loop_session_db:
  "session_db (foldl (process_result env m) st xs) = foldl (db_after_item env m) (session_db st) xs"
  by (induction xs arbitrary: st) (simp_all add: step_session_db)

lemma loop_collect:
  assumes "\<And>st x. g (process_result env m st x) = g st @ f (session_db st) x"
  shows "g (foldl (process_result env m) st xs) = g st @ per_turn f env m (session_db st) xs"
proof (induction xs arbitrary: st)
  case Nil
  show ?case by (simp add: per_turn_Nil)
next
  case (Cons x xs)
  show ?case
    by (simp add: Cons.IH assms per_turn_Cons step_session_db)
qed

lemma step_tasks_success': 
  "tasks_success (process_result env m st x) = tasks_success st @ success_id env m (session_db st) x"
  by (simp add: step_tasks_success success_id_def)

lemma step_tasks_failures': 
  "tasks_failures (process_result env m st x) = tasks_failures st @ failure_id env m (session_db st) x"
  by (simp add: step_tasks_failures failure_id_def)

lemma step_session_ops': 
  "session_ops (process_result env m st x) = session_ops st @ item_ops env m (session_db st) x"
  by (simp add: step_session_ops item_ops_def)

lemma update_finished_loop_eq:
  "update_finished_loop env m db results =
     \<lparr>session_db = foldl (db_after_item env m) db results,
      session_ops = select_manager_for_update # per_turn (item_ops env m) env m db results,
      tasks_success = per_turn (success_id env m) env m db results,
      tasks_failures = per_turn (failure_id env m) env m db results,
      tasks_rejected = per_turn (rejection env m) env m db results,
      all_notifications = per_turn (notification env m) env m db results,
      to_be_reset = per_turn (reset_wanted env m) env m db results\<rparr>"
  unfolding update_finished_loop_def
  by (rule locals.equality)
     (simp_all add: loop_session_db
        loop_collect [of session_ops env m, OF step_session_ops']
        loop_collect [of tasks_success env m, OF step_tasks_success']
        loop_collect [of tasks_failures env m, OF step_tasks_failures']
        loop_collect [of tasks_rejected env m, OF step_tasks_rejected']
        loop_collect [of all_notifications env m, OF step_all_notifications]
        loop_collect [of to_be_reset env m, OF step_to_be_reset])

lemma db_after_item_task_queue: "task_queue (db_after_item env m db x) = task_queue db"
  by (simp add: db_after_item_def split: option.splits)

lemma db_after_item_compute_manager:
  "compute_manager (db_after_item env m db x) = compute_manager db"
  by (simp add: db_after_item_def split: option.splits)

lemma db_after_items_task_queue: "task_queue (foldl (db_after_item env m) db xs) = task_queue db"
  by (induction xs arbitrary: db) (simp_all add: db_after_item_task_queue)

lemma db_after_items_compute_manager:
  "compute_manager (foldl (db_after_item env m) db xs) = compute_manager db"
  by (induction xs arbitrary: db) (simp_all add: db_after_item_compute_manager)

lemma item_record_id_cong:
  "task_queue d1 = task_queue d2 \<Longrightarrow> fst x = fst y \<Longrightarrow> item_record_id d1 x = item_record_id d2 y"
  by (simp add: item_record_id_def item_task_def)

lemma db_after_item_other:
  "item_record_id db x \<noteq> Some rid \<Longrightarrow> base_record (db_after_item env m db x) rid = base_record db rid"
  by (auto simp: db_after_item_def split: option.splits)

lemma db_after_item_absent:
  "base_record db rid = None \<Longrightarrow> base_record (db_after_item env m db x) rid = None"
  by (auto simp: db_after_item_def split: option.splits)

lemma db_after_item_untouched:
  "base_record db rid = Some r \<Longrightarrow> rec_status r \<noteq> running \<or> rec_manager_name r \<noteq> Some m \<Longrightarrow>
     base_record (db_after_item env m db x) rid = Some r"
  by (auto simp: db_after_item_def record_after_def split: option.splits)

lemma item_record_out_of_reach:
  assumes "item_record db x = ro" "out_of_reach m ro"
  shows "item_record (db_after_item env m db y) x = ro"
proof (cases "item_record_id db x")
  case None
  then have "item_record_id (db_after_item env m db y) x = None"
    using item_record_id_cong [of "db_after_item env m db y" db x x]
    by (simp add: db_after_item_task_queue)
  with None assms show ?thesis by (simp add: item_record_def)
next
  case (Some rid)
  then have rid: "item_record_id (db_after_item env m db y) x = Some rid"
    using item_record_id_cong [of "db_after_item env m db y" db x x]
    by (simp add: db_after_item_task_queue)
  from Some assms have "base_record db rid = ro" by (simp add: item_record_def)
  with assms(2) have "base_record (db_after_item env m db y) rid = ro"
    by (cases ro) (auto simp: out_of_reach_def db_after_item_absent db_after_item_untouched)
  with rid show ?thesis by (simp add: item_record_def)
qed

lemma per_turn_member:
  assumes inv: "\<And>d y. P d \<Longrightarrow> P (db_after_item env m d y)"
    and hit: "\<And>d. P d \<Longrightarrow> e \<in> set (f d x)"
    and "P db" "x \<in> set xs"
  shows "e \<in> set (per_turn f env m db xs)"
  using assms(3,4)
proof (induction xs arbitrary: db)
  case Nil
  then show ?case by simp
next
  case (Cons a xs)
  show ?case
  proof (cases "x = a")
    case True
    with Cons.prems hit show ?thesis by (simp add: per_turn_Cons)
  next
    case False
    with Cons.prems have "x \<in> set xs" by simp
    moreover from Cons.prems inv have "P (db_after_item env m db a)" by simp
    ultimately have "e \<in> set (per_turn f env m (db_after_item env m db a) xs)"
      by (rule Cons.IH [rotated])
    then show ?thesis by (simp add: per_turn_Cons)
  qed
qed

lemma per_turn_not_member:
  assumes inv: "\<And>d y. P d \<Longrightarrow> P (db_after_item env m d y)"
    and miss: "\<And>d y. P d \<Longrightarrow> e \<notin> set (f d y)"
    and "P db"
  shows "e \<notin> set (per_turn f env m db xs)"
  using assms(3)
proof (induction xs arbitrary: db)
  case Nil
  show ?case by (simp add: per_turn_Nil)
next
  case (Cons a xs)
  from Cons.prems inv have "P (db_after_item env m db a)" by simp
  then have "e \<notin> set (per_turn f env m (db_after_item env m db a) xs)"
    by (rule Cons.IH)
  with Cons.prems miss show ?case by (simp add: per_turn_Cons)
qed

lemma verdict_out_of_reach:
  assumes "item_record d x = ro" "out_of_reach m ro"
  shows "verdict env m d x =
     (case ro of None \<Rightarrow> NoSuchTask
      | Some r \<Rightarrow> if rec_status r \<noteq> running then NotRunning else OtherManager)"
  using assms by (auto simp: verdict_def out_of_reach_def split: option.splits)

lemma item_record_fst: "fst x = fst y \<Longrightarrow> item_record d x = item_record d y"
  by (simp add: item_record_def item_record_id_def item_task_def)

lemma out_of_reach_rejected:
  assumes "item_record db x = ro" "out_of_reach m ro" "x \<in> set xs"
  shows "(fst x, case ro of None \<Rightarrow> ''Task does not exist in the task queue''
            | Some r \<Rightarrow> if rec_status r \<noteq> running then ''Task is not in a running state''
                        else ''Task is claimed by another manager'')
           \<in> set (per_turn (rejection env m) env m db xs)"
proof (rule per_turn_member [where P = "\<lambda>d. item_record d x = ro"])
  show "item_record (db_after_item env m d y) x = ro" if "item_record d x = ro" for d y
    using that assms(2) by (rule item_record_out_of_reach)
  show "(fst x, case ro of None \<Rightarrow> ''Task does not exist in the task queue''
            | Some r \<Rightarrow> if rec_status r \<noteq> running then ''Task is not in a running state''
                        else ''Task is claimed by another manager'') \<in> set (rejection env m d x)"
    if "item_record d x = ro" for d
    using verdict_out_of_reach [OF that assms(2), of env]
    by (simp add: rejection_def split: option.splits)
qed (use assms in simp_all)

lemma out_of_reach_not_accepted:
  assumes "item_record db x = ro" "out_of_reach m ro"
  shows "fst x \<notin> set (per_turn (success_id env m) env m db xs)"
    and "fst x \<notin> set (per_turn (failure_id env m) env m db xs)"
    and "set (per_turn (reset_wanted env m) env m db xs) \<inter> set_option (item_record_id db x) = {}"
proof -
  have inv: "item_record (db_after_item env m d y) x = ro" if "item_record d x = ro" for d y
    using that assms(2) by (rule item_record_out_of_reach)
  have v: "verdict env m d y \<noteq> Success \<and> verdict env m d y \<noteq> RecognizedFailure"
    if "item_record d x = ro" "fst x = fst y" for d y
  proof -
    from that have "item_record d y = ro" using item_record_fst [of x y d] by simp
    from verdict_out_of_reach [OF this assms(2), of env] show ?thesis
      by (simp split: option.splits if_splits)
  qed
  show "fst x \<notin> set (per_turn (success_id env m) env m db xs)"
  proof (rule per_turn_not_member [where P = "\<lambda>d. item_record d x = ro"])
    show "fst x \<notin> set (success_id env m d y)" if "item_record d x = ro" for d y
      using v [OF that] by (auto simp: success_id_def)
  qed (use inv assms in simp_all)
  show "fst x \<notin> set (per_turn (failure_id env m) env m db xs)"
  proof (rule per_turn_not_member [where P = "\<lambda>d. item_record d x = ro"])
    show "fst x \<notin> set (failure_id env m d y)" if "item_record d x = ro" for d y
      using v [OF that] by (auto simp: failure_id_def)
  qed (use inv assms in simp_all)
  have "rid \<notin> set (per_turn (reset_wanted env m) env m db xs)"
    if rid: "item_record_id db x = Some rid" for rid
  proof (rule per_turn_not_member
      [where P = "\<lambda>d. item_record d x = ro \<and> item_record_id d x = Some rid"])
    show "item_record (db_after_item env m d y) x = ro \<and>
          item_record_id (db_after_item env m d y) x = Some rid"
      if "item_record d x = ro \<and> item_record_id d x = Some rid" for d y
      using that inv item_record_id_cong [of "db_after_item env m d y" d x x]
      by (simp add: db_after_item_task_queue)
    show "rid \<notin> set (reset_wanted env m d y)"
      if h: "item_record d x = ro \<and> item_record_id d x = Some rid" for d y
    proof
      assume "rid \<in> set (reset_wanted env m d y)"
      then have y: "item_record_id d y = Some rid" "verdict env m d y = RecognizedFailure"
        by (auto simp: reset_wanted_def split: option.splits if_splits)
      with h have "item_record d y = ro" by (auto simp: item_record_def)
      from verdict_out_of_reach [OF this assms(2), of env] y(2) show False
        by (simp split: option.splits if_splits)
    qed
    show "item_record db x = ro \<and> item_record_id db x = Some rid"
      using assms(1) rid by simp
  qed
  then show "set (per_turn (reset_wanted env m) env m db xs) \<inter> set_option (item_record_id db x) = {}"
    by (cases "item_record_id db x") auto
qed

lemma out_of_reach_kept:
  assumes "item_record db x = ro" "out_of_reach m ro"
  shows "item_record (foldl (db_after_item env m) db xs) x = ro"
  using assms(1)
  by (induction xs arbitrary: db) (simp_all add: item_record_out_of_reach [OF _ assms(2)])

lemma update_finished_active:
  assumes "compute_manager db m = Some manager" "mgr_status manager = active"
  shows "update_finished env db m results =
    \<lparr>returned = Inr \<lparr>rejected_info = per_turn (rejection env m) env m db results,
                     accepted_ids = per_turn (success_id env m) env m db results @
                                    per_turn (failure_id env m) env m db results\<rparr>,
     database_after =
       (if auto_reset_enabled env \<and> per_turn (reset_wanted env m) env m db results \<noteq> []
        then reset env (per_turn (reset_wanted env m) env m db results)
          ((foldl (db_after_item env m) db results)\<lparr>compute_manager := (compute_manager db)(m \<mapsto>
             counted manager (length (per_turn (success_id env m) env m db results))
               (length (per_turn (failure_id env m) env m db results))
               (length (per_turn (rejection env m) env m db results)))\<rparr>)
        else (foldl (db_after_item env m) db results)\<lparr>compute_manager := (compute_manager db)(m \<mapsto>
             counted manager (length (per_turn (success_id env m) env m db results))
               (length (per_turn (failure_id env m) env m db results))
               (length (per_turn (rejection env m) env m db results)))\<rparr>),
     notified = per_turn (notification env m) env m db results,
     session_log = select_manager_for_update # per_turn (item_ops env m) env m db results @ [flush]\<rparr>"
  using assms
  by (simp add: update_finished_def update_finished_loop_eq Let_def counted_def
      db_after_items_compute_manager)

lemma one_list_per_item:
  "length (success_id env m d x) + length (failure_id env m d x) + length (rejection env m d x) = 1"
  by (cases "verdict env m d x") (simp_all add: success_id_def failure_id_def rejection_def)

lemma one_list_per_turn:
  "length (per_turn (success_id env m) env m db xs) +
   length (per_turn (failure_id env m) env m db xs) +
   length (per_turn (rejection env m) env m db xs) = length xs"
proof (induction xs arbitrary: db)
  case Nil
  show ?case by (simp add: per_turn_Nil)
next
  case (Cons x xs)
  from Cons.IH [of "db_after_item env m db x"] one_list_per_item [of env m db x]
  show ?case by (simp add: per_turn_Cons)
qed

lemma length_per_turn_if:
  "length (per_turn (\<lambda>d x. if P d x then [g x] else []) env m db xs) =
     length (filter (\<lambda>(d, x). P d x) (turns env m db xs))"
  by (induction xs arbitrary: db) (simp_all add: per_turn_Nil per_turn_Cons)

lemma length_success:
  "length (per_turn (success_id env m) env m db xs) =
     length (filter (\<lambda>(d, x). verdict env m d x = Success) (turns env m db xs))"
  using length_per_turn_if [of "\<lambda>d x. verdict env m d x = Success" fst env m db xs]
  by (simp add: success_id_def [abs_def])

lemma length_failure:
  "length (per_turn (failure_id env m) env m db xs) =
     length (filter (\<lambda>(d, x). verdict env m d x = RecognizedFailure) (turns env m db xs))"
  using length_per_turn_if [of "\<lambda>d x. verdict env m d x = RecognizedFailure" fst env m db xs]
  by (simp add: failure_id_def [abs_def])

lemma length_rejection:
  "length (per_turn (rejection env m) env m db xs) =
     length (filter (\<lambda>(d, x). rejection_reason (verdict env m d x) \<noteq> None) (turns env m db xs))"
  by (induction xs arbitrary: db)
     (simp_all add: per_turn_Nil per_turn_Cons rejection_def split: option.splits)

lemma item_record_task:
  "item_task db x = Some t \<Longrightarrow> item_record db x = base_record db (task_record_id t)"
  "item_task db x = Some t \<Longrightarrow> item_record_id db x = Some (task_record_id t)"
  "item_task db x = None \<Longrightarrow> item_record db x = None"
  by (simp_all add: item_record_def item_record_id_def)

lemma in_per_turn:
  "e \<in> set (per_turn f env m db xs) \<longleftrightarrow> (\<exists>(d, x) \<in> set (turns env m db xs). e \<in> set (f d x))"
  by (auto simp: per_turn_def)

lemma handler_only:
  assumes "completion_handler env' = completion_handler env"
  shows "verdict env' m d x = verdict env m d x"
    and "db_after_item env' m d x = db_after_item env m d x"
  unfolding verdict_def db_after_item_def record_after_def assms by (rule refl)+

lemma per_item_handler_only:
  assumes "completion_handler env' = completion_handler env"
  shows "rejection env' m = rejection env m" "success_id env' m = success_id env m"
    "failure_id env' m = failure_id env m" "notification env' m = notification env m"
    "item_ops env' m = item_ops env m"
  unfolding rejection_def [abs_def] success_id_def [abs_def] failure_id_def [abs_def]
    notification_def [abs_def] item_ops_def [abs_def] handler_only(1) [OF assms]
  by (rule refl)+

lemma turns_handler_only:
  assumes "completion_handler env' = completion_handler env"
  shows "turns env' m db xs = turns env m db xs"
  by (induction xs arbitrary: db) (simp_all add: handler_only [OF assms])

lemma per_turn_env:
  assumes "completion_handler env' = completion_handler env"
  shows "per_turn f env' m db xs = per_turn f env m db xs"
  by (simp add: per_turn_def turns_handler_only [OF assms])

lemma per_turn_cong:
  assumes "\<And>d x. (d, x) \<in> set (turns env m db xs) \<Longrightarrow> f d x = g d x"
  shows "per_turn f env m db xs = per_turn g env m db xs"
  unfolding per_turn_def using assms by (auto intro!: arg_cong [where f = concat])

lemma foldl_db_env:
  assumes "completion_handler env' = completion_handler env"
  shows "foldl (db_after_item env' m) db xs = foldl (db_after_item env m) db xs"
  by (induction xs arbitrary: db) (simp_all add: handler_only [OF assms])

lemma agree_off_item:
  assumes "agree_off rid d1 d2" "item_record_id d1 y \<noteq> Some rid"
  shows "item_record_id d2 y = item_record_id d1 y" "item_record d2 y = item_record d1 y"
    "item_record_id d2 y \<noteq> Some rid"
proof -
  from assms(1) show 1: "item_record_id d2 y = item_record_id d1 y"
    by (simp add: agree_off_def item_record_id_def item_task_def)
  with assms show "item_record d2 y = item_record d1 y"
    by (auto simp: item_record_def agree_off_def split: option.splits)
  from 1 assms(2) show "item_record_id d2 y \<noteq> Some rid" by simp
qed

lemma agree_off_verdict:
  assumes "agree_off rid d1 d2" "item_record_id d1 y \<noteq> Some rid"
  shows "verdict env m d1 y = verdict env m d2 y"
  unfolding verdict_def agree_off_item(2) [OF assms] by (rule refl)

lemma agree_off_per_item:
  assumes "agree_off rid d1 d2" "item_record_id d1 y \<noteq> Some rid"
  shows "rejection env m d1 y = rejection env m d2 y"
    "success_id env m d1 y = success_id env m d2 y"
    "failure_id env m d1 y = failure_id env m d2 y"
    "notification env m d1 y = notification env m d2 y"
    "item_ops env m d1 y = item_ops env m d2 y"
    "reset_wanted env m d1 y = reset_wanted env m d2 y"
proof -
  note v = agree_off_verdict [OF assms, of env m]
  note i = agree_off_item [OF assms]
  show "rejection env m d1 y = rejection env m d2 y"
    "success_id env m d1 y = success_id env m d2 y"
    "failure_id env m d1 y = failure_id env m d2 y"
    "item_ops env m d1 y = item_ops env m d2 y"
    by (simp_all add: rejection_def success_id_def failure_id_def item_ops_def v)
  show "notification env m d1 y = notification env m d2 y"
    unfolding notification_def v i(1) by (rule refl)
  have "base_record d1 k = base_record d2 k" if "item_record_id d1 y = Some k" for k
    using that assms by (auto simp: agree_off_def)
  then show "reset_wanted env m d1 y = reset_wanted env m d2 y"
    unfolding reset_wanted_def v i(1) by (auto split: option.splits)
qed

lemma agree_off_step:
  assumes "agree_off rid d1 d2" "item_record_id d1 y \<noteq> Some rid"
  shows "agree_off rid (db_after_item env m d1 y) (db_after_item env m d2 y)"
proof -
  note i = agree_off_item [OF assms]
  have "base_record (db_after_item env m d1 y) k = base_record (db_after_item env m d2 y) k"
    if "k \<noteq> rid" for k
    using that assms i(1)
    by (auto simp: db_after_item_def agree_off_def split: option.splits)
  with assms(1) show ?thesis
    by (simp add: agree_off_def db_after_item_task_queue db_after_item_compute_manager)
qed

lemma agree_off_per_turn:
  assumes f: "\<And>d1 d2 y. agree_off rid d1 d2 \<Longrightarrow> item_record_id d1 y \<noteq> Some rid \<Longrightarrow> f d1 y = f d2 y"
    and "agree_off rid d1 d2" "\<forall>y\<in>set ys. item_record_id d1 y \<noteq> Some rid"
  shows "per_turn f env m d1 ys = per_turn f env m d2 ys"
  using assms(2,3)
proof (induction ys arbitrary: d1 d2)
  case Nil
  show ?case by (simp add: per_turn_Nil)
next
  case (Cons y ys)
  from Cons.prems have y: "item_record_id d1 y \<noteq> Some rid" by simp
  have "agree_off rid (db_after_item env m d1 y) (db_after_item env m d2 y)"
    using Cons.prems(1) y by (rule agree_off_step)
  moreover have "\<forall>z\<in>set ys. item_record_id (db_after_item env m d1 y) z \<noteq> Some rid"
    using Cons.prems(2) item_record_id_cong [of "db_after_item env m d1 y" d1]
    by (simp add: db_after_item_task_queue)
  ultimately have "per_turn f env m (db_after_item env m d1 y) ys =
      per_turn f env m (db_after_item env m d2 y) ys"
    by (rule Cons.IH)
  with f [OF Cons.prems(1) y] show ?case by (simp add: per_turn_Cons)
qed

lemma agree_off_loop:
  assumes "agree_off rid d1 d2" "\<forall>y\<in>set ys. item_record_id d1 y \<noteq> Some rid"
  shows "agree_off rid (foldl (db_after_item env m) d1 ys) (foldl (db_after_item env m) d2 ys)"
  using assms
proof (induction ys arbitrary: d1 d2)
  case Nil
  then show ?case by simp
next
  case (Cons y ys)
  from Cons.prems have y: "item_record_id d1 y \<noteq> Some rid" by simp
  have "agree_off rid (db_after_item env m d1 y) (db_after_item env m d2 y)"
    using Cons.prems(1) y by (rule agree_off_step)
  moreover have "\<forall>z\<in>set ys. item_record_id (db_after_item env m d1 y) z \<noteq> Some rid"
    using Cons.prems(2) item_record_id_cong [of "db_after_item env m d1 y" d1]
    by (simp add: db_after_item_task_queue)
  ultimately show ?case
    using Cons.IH by simp
qed

lemma untargeted_loop:
  assumes "\<forall>y\<in>set ys. item_record_id d y \<noteq> Some rid"
  shows "base_record (foldl (db_after_item env m) d ys) rid = base_record d rid"
  using assms
proof (induction ys arbitrary: d)
  case Nil
  show ?case by simp
next
  case (Cons y ys)
  have "\<forall>z\<in>set ys. item_record_id (db_after_item env m d y) z \<noteq> Some rid"
    using Cons.prems item_record_id_cong [of "db_after_item env m d y" d]
    by (simp add: db_after_item_task_queue)
  then have "base_record (foldl (db_after_item env m) (db_after_item env m d y) ys) rid =
      base_record (db_after_item env m d y) rid"
    by (rule Cons.IH)
  with Cons.prems show ?case by (simp add: db_after_item_other)
qed

lemma item_ops_savepoints:
  "set (item_ops env m d x) \<subseteq>
     {select_task_for_update (fst x), begin_nested, nested_rollback, nested_commit}"
  by (cases "verdict env m d x") (auto simp: item_ops_def savepoint_ops_def)

lemma per_turn_item_ops:
  "commit \<notin> set (per_turn (item_ops env m) env m db xs) \<and>
   rollback \<notin> set (per_turn (item_ops env m) env m db xs)"
proof -
  have "op \<in> set (item_ops env m d x) \<Longrightarrow> op \<noteq> commit \<and> op \<noteq> rollback" for op d x
    using item_ops_savepoints [of env m d x] by auto
  then show ?thesis
    unfolding in_per_turn by blast
qed

lemma internal_item:
  assumes t: "item_task d (tid, res) = Some t" and r: "base_record d (task_record_id t) = Some r"
    and run: "rec_status r = running" "rec_manager_name r = Some m"
    and bad: "\<not> success res \<and> \<not> is_FailedOperation res \<or>
              success res \<and> (\<exists>dirty tb. update_completed_task (completion_handler env) r res m
                                          = Raised dirty tb)"
  shows "success_id env m d (tid, res) = []" "failure_id env m d (tid, res) = []"
    "reset_wanted env m d (tid, res) = []"
    "rejection env m d (tid, res) =
       [(tid, if success res then ''Internal server error''
              else ''Returned success=False, but not a FailedOperation'')]"
    "notification env m d (tid, res) = [(task_record_id t, error)]"
    "item_ops env m d (tid, res) =
       select_task_for_update tid #
         (if success res then [begin_nested, nested_rollback, begin_nested, nested_commit]
          else [begin_nested, nested_commit])"
    "\<exists>msg. base_record (db_after_item env m d (tid, res)) (task_record_id t) =
       Some (r\<lparr>rec_status := error,
               rec_compute_history := rec_compute_history r @
                 [\<lparr>hist_status = error, hist_manager_name = m,
                   hist_result = FailedOperation False ''internal_fractal_error'' msg\<rparr>]\<rparr>)"
    "agree_off (task_record_id t) (db_after_item env m d (tid, res)) d"
proof -
  from t r have ir: "item_record d (tid, res) = Some r"
    "item_record_id d (tid, res) = Some (task_record_id t)"
    by (simp_all add: item_record_task)
  from bad ir run have v: "verdict env m d (tid, res) =
      (if success res then InternalError else UnrecognizedFailure)"
    by (auto simp: verdict_def)
  show "success_id env m d (tid, res) = []" "failure_id env m d (tid, res) = []"
    "rejection env m d (tid, res) =
       [(tid, if success res then ''Internal server error''
              else ''Returned success=False, but not a FailedOperation'')]"
    "notification env m d (tid, res) = [(task_record_id t, error)]"
    "item_ops env m d (tid, res) =
       select_task_for_update tid #
         (if success res then [begin_nested, nested_rollback, begin_nested, nested_commit]
          else [begin_nested, nested_commit])"
    by (simp_all add: success_id_def failure_id_def rejection_def notification_def item_ops_def
        savepoint_ops_def v ir)
  show "reset_wanted env m d (tid, res) = []"
    by (simp add: reset_wanted_def v ir r)
  from bad run show "\<exists>msg. base_record (db_after_item env m d (tid, res)) (task_record_id t) =
       Some (r\<lparr>rec_status := error,
               rec_compute_history := rec_compute_history r @
                 [\<lparr>hist_status = error, hist_manager_name = m,
                   hist_result = FailedOperation False ''internal_fractal_error'' msg\<rparr>]\<rparr>)"
    by (auto simp: db_after_item_def ir r record_after_def update_failed_task_def
        internal_error_def)
  show "agree_off (task_record_id t) (db_after_item env m d (tid, res)) d"
    by (simp add: agree_off_def db_after_item_task_queue db_after_item_compute_manager
        db_after_item_other ir)
qed

lemmas finish_defs = update_finished_def update_finished_loop_def process_result_def
  session_do_def write_record_def reject_def notify_def internal_error_def
  update_failed_task_def update_completed_task_def Let_def
  example_running_db_def example_results_def example_env_def

lemma should_reset_only_after_failure:
  assumes "compute_manager db m = Some manager" "mgr_status manager = active"
    and f: "\<forall>(d, x) \<in> set (turns env m db results). \<forall>r.
            verdict env m d x = RecognizedFailure \<and> item_record d x = Some r \<longrightarrow>
            f (update_failed_task r (snd x) m) = should_reset env (update_failed_task r (snd x) m)"
  shows "update_finished (env\<lparr>should_reset := f\<rparr>) db m results = update_finished env db m results"
proof -
  let ?env = "env\<lparr>should_reset := f\<rparr>"
  have h: "completion_handler ?env = completion_handler env" by simp
  note v = per_item_handler_only [OF h]
  have "reset_wanted ?env m d x = reset_wanted env m d x"
    if "(d, x) \<in> set (turns env m db results)" for d x
  proof (cases "verdict env m d x = RecognizedFailure")
    case False
    then show ?thesis
      by (simp add: reset_wanted_def handler_only(1) [OF h] split: option.splits)
  next
    case True
    show ?thesis
    proof (cases "item_record d x")
      case None
      then show ?thesis
        by (auto simp: reset_wanted_def item_record_def split: option.splits)
    next
      case (Some r)
      with True that f
      have "f (update_failed_task r (snd x) m) = should_reset env (update_failed_task r (snd x) m)"
        by blast
      with Some show ?thesis
        by (auto simp: reset_wanted_def item_record_def handler_only(1) [OF h]
            split: option.splits)
    qed
  qed
  then have "per_turn (reset_wanted ?env m) env m db results =
             per_turn (reset_wanted env m) env m db results"
    by (rule per_turn_cong)
  then show ?thesis
    unfolding update_finished_active [OF assms(1,2), of ?env]
      update_finished_active [OF assms(1,2), of env]
    by (simp add: v per_turn_env [OF h] foldl_db_env [OF h])
qed

lemma example_manager_active:
  "compute_manager example_running_db ''m1'' = Some example_manager"
  "mgr_status example_manager = active"
  by (simp_all add: example_running_db_def example_defs)

subsection \<open>The claims about \<^verbatim>\<open>update_finished\<close> and the manager check\<close>

text \<open>
  C4. When the manager does not exist, or exists and is not active, \<open>claim_tasks\<close> and
  \<open>update_finished\<close> raise a \<open>ComputeManagerError\<close> and leave the database as it was;
  \<open>update_finished\<close> has then asked the session for the manager row only, looked at no
  task and sent no notification.
\<close>

theorem manager_must_be_active:
  "(compute_manager db mname = None \<longrightarrow>
      claim_tasks L now db mname limit =
        (Inl (ComputeManagerError ''Manager does not exist!''), db) \<and>
      update_finished env db mname results =
        \<lparr>returned = Inl (ComputeManagerError (''Manager '' @ mname @ '' does not exist'')),
         database_after = db, notified = [], session_log = [select_manager_for_update]\<rparr>) \<and>
   (\<forall>manager. compute_manager db mname = Some manager \<and> mgr_status manager \<noteq> active \<longrightarrow>
      claim_tasks L now db mname limit =
        (Inl (ComputeManagerError ''Manager is not active!''), db) \<and>
      update_finished env db mname results =
        \<lparr>returned = Inl (ComputeManagerError (''Manager '' @ mname @ '' is not active'')),
         database_after = db, notified = [], session_log = [select_manager_for_update]\<rparr>)"
  by (simp add: claim_tasks_def update_finished_def)

theorem manager_must_be_active_witness:
  "compute_manager example_db ''m3'' = None \<and>
   claim_tasks 5 100 example_db ''m3'' None =
     (Inl (ComputeManagerError ''Manager does not exist!''), example_db) \<and>
   map_option mgr_status (compute_manager example_db ''m2'') = Some inactive \<and>
   database_after (update_finished example_env example_db ''m2'' [(1, OtherResult True 0)])
     = example_db \<and>
   returned (update_finished example_env example_db ''m2'' [(1, OtherResult True 0)]) =
     Inl (ComputeManagerError ''Manager m2 is not active'')"
proof -
  have a: "compute_manager example_db ''m3'' = None"
    by (simp add: example_defs)
  have b: "compute_manager example_db ''m2'' =
             Some (example_manager\<lparr>mgr_name := ''m2'', mgr_status := inactive\<rparr>)"
    by (simp add: example_defs)
  have c: "mgr_status (example_manager\<lparr>mgr_name := ''m2'', mgr_status := inactive\<rparr>) \<noteq> active"
    by simp
  from manager_must_be_active [of example_db "''m3''" 5 100 None] a
  have "claim_tasks 5 100 example_db ''m3'' None =
     (Inl (ComputeManagerError ''Manager does not exist!''), example_db)"
    by blast
  moreover
  from manager_must_be_active
    [of example_db "''m2''" _ _ _ example_env "[(1, OtherResult True 0)]"] b c
  have "update_finished example_env example_db ''m2'' [(1, OtherResult True 0)] =
        \<lparr>returned = Inl (ComputeManagerError (''Manager '' @ ''m2'' @ '' is not active'')),
         database_after = example_db, notified = [], session_log = [select_manager_for_update]\<rparr>"
    by blast
  ultimately show ?thesis using a b by simp
qed

text \<open>
  C1. Take a batch and one of its items whose task exists and whose record, when the
  loop reaches the item, is running on the submitting manager, and let the result be
  neither a success nor a \<open>FailedOperation\<close>, or let applying the success raise. Let no
  later item of the batch be for the same record. Then the record ends as it was at the
  savepoint plus one history entry for a failure of type \<open>internal_fractal_error\<close>, with
  status error: nothing of what the raising call wrote stays. The task is in the rejected
  list with the reason of its case and an error notification is sent for its record. The
  rest of the batch fares as in the batch without the item: the same accepted ids, the
  same rejections around the one of the item, the same records to reset and the same
  content of every other record. The session is asked for savepoint operations only (a
  rollback to the savepoint and a new savepoint when the call raised); it is never asked
  to commit or roll back, which is what would release the lock on the manager row.
\<close>

theorem update_finished_internal_error:
  assumes "compute_manager db m = Some manager" "mgr_status manager = active"
    and "item_task (session_db (update_finished_loop env m db xs)) (tid, res) = Some t"
    and "base_record (session_db (update_finished_loop env m db xs)) (task_record_id t) = Some r"
    and "rec_status r = running" "rec_manager_name r = Some m"
    and "\<not> success res \<and> \<not> is_FailedOperation res \<or>
         success res \<and> (\<exists>dirty tb. update_completed_task (completion_handler env) r res m
                                     = Raised dirty tb)"
    and "\<forall>y\<in>set ys. item_record_id db y \<noteq> Some (task_record_id t)"
  shows "\<exists>meta meta' pre post before after msg.
     returned (update_finished env db m (xs @ (tid, res) # ys)) = Inr meta \<and>
     returned (update_finished env db m (xs @ ys)) = Inr meta' \<and>
     base_record (session_db (update_finished_loop env m db (xs @ (tid, res) # ys)))
         (task_record_id t) =
       Some (r\<lparr>rec_status := error,
               rec_compute_history := rec_compute_history r @
                 [\<lparr>hist_status = error, hist_manager_name = m,
                   hist_result = FailedOperation False ''internal_fractal_error'' msg\<rparr>]\<rparr>) \<and>
     rejected_info meta =
       pre @ (tid, if success res then ''Internal server error''
                   else ''Returned success=False, but not a FailedOperation'') # post \<and>
     rejected_info meta' = pre @ post \<and>
     accepted_ids meta = accepted_ids meta' \<and>
     to_be_reset (update_finished_loop env m db (xs @ (tid, res) # ys)) =
       to_be_reset (update_finished_loop env m db (xs @ ys)) \<and>
     (\<forall>k. k \<noteq> task_record_id t \<longrightarrow>
        base_record (session_db (update_finished_loop env m db (xs @ (tid, res) # ys))) k =
        base_record (session_db (update_finished_loop env m db (xs @ ys))) k) \<and>
     (task_record_id t, error)
        \<in> set (notified (update_finished env db m (xs @ (tid, res) # ys))) \<and>
     session_log (update_finished env db m (xs @ (tid, res) # ys)) =
       before @ select_task_for_update tid #
         (if success res then [begin_nested, nested_rollback, begin_nested, nested_commit]
          else [begin_nested, nested_commit]) @ after \<and>
     commit \<notin> set (session_log (update_finished env db m (xs @ (tid, res) # ys))) \<and>
     rollback \<notin> set (session_log (update_finished env db m (xs @ (tid, res) # ys)))"
proof -
  let ?x = "(tid, res)" and ?rid = "task_record_id t"
  let ?d = "foldl (db_after_item env m) db xs"
  let ?d' = "db_after_item env m ?d ?x"
  let ?reason = "if success res then ''Internal server error''
                 else ''Returned success=False, but not a FailedOperation''"
  let ?ops = "if success res then [begin_nested, nested_rollback, begin_nested, nested_commit]
              else [begin_nested, nested_commit]"
  have d: "session_db (update_finished_loop env m db xs) = ?d"
    by (simp add: update_finished_loop_eq)
  note item = internal_item [OF assms(3,4) [unfolded d] assms(5,6,7)]
  have ys: "\<forall>y\<in>set ys. item_record_id ?d' y \<noteq> Some ?rid"
    using assms(8) item_record_id_cong [of ?d' db]
    by (simp add: db_after_item_task_queue db_after_items_task_queue)
  note same =
    agree_off_per_turn [where f = "rejection env m", OF agree_off_per_item(1) item(8) ys]
    agree_off_per_turn [where f = "success_id env m", OF agree_off_per_item(2) item(8) ys]
    agree_off_per_turn [where f = "failure_id env m", OF agree_off_per_item(3) item(8) ys]
    agree_off_per_turn [where f = "reset_wanted env m", OF agree_off_per_item(6) item(8) ys]
  note eq = update_finished_active [OF assms(1,2), of env]
  from item(7) obtain msg where msg: "base_record ?d' ?rid =
       Some (r\<lparr>rec_status := error,
               rec_compute_history := rec_compute_history r @
                 [\<lparr>hist_status = error, hist_manager_name = m,
                   hist_result = FailedOperation False ''internal_fractal_error'' msg\<rparr>]\<rparr>)"
    by blast
  have rec: "base_record (session_db (update_finished_loop env m db (xs @ ?x # ys))) ?rid =
       Some (r\<lparr>rec_status := error,
               rec_compute_history := rec_compute_history r @
                 [\<lparr>hist_status = error, hist_manager_name = m,
                   hist_result = FailedOperation False ''internal_fractal_error'' msg\<rparr>]\<rparr>)"
    using untargeted_loop [OF ys, of env m] msg by (simp add: update_finished_loop_eq)
  have rej: "rejected_info \<lparr>rejected_info = per_turn (rejection env m) env m db (xs @ ?x # ys),
        accepted_ids = per_turn (success_id env m) env m db (xs @ ?x # ys) @
                       per_turn (failure_id env m) env m db (xs @ ?x # ys)\<rparr> =
      per_turn (rejection env m) env m db xs @ (tid, ?reason) #
        per_turn (rejection env m) env m ?d ys"
    by (simp add: per_turn_append per_turn_Cons item(4) same)
  have rej': "rejected_info \<lparr>rejected_info = per_turn (rejection env m) env m db (xs @ ys),
        accepted_ids = per_turn (success_id env m) env m db (xs @ ys) @
                       per_turn (failure_id env m) env m db (xs @ ys)\<rparr> =
      per_turn (rejection env m) env m db xs @ per_turn (rejection env m) env m ?d ys"
    by (simp add: per_turn_append)
  have acc: "per_turn (success_id env m) env m db (xs @ ?x # ys) @
             per_turn (failure_id env m) env m db (xs @ ?x # ys) =
             per_turn (success_id env m) env m db (xs @ ys) @
             per_turn (failure_id env m) env m db (xs @ ys)"
    by (simp add: per_turn_append per_turn_Cons item(1,2) same)
  have tbr: "to_be_reset (update_finished_loop env m db (xs @ ?x # ys)) =
       to_be_reset (update_finished_loop env m db (xs @ ys))"
    by (simp add: update_finished_loop_eq per_turn_append per_turn_Cons item(3) same)
  have "agree_off ?rid (foldl (db_after_item env m) ?d' ys) (foldl (db_after_item env m) ?d ys)"
    using item(8) ys by (rule agree_off_loop)
  then have others: "\<forall>k. k \<noteq> ?rid \<longrightarrow>
        base_record (session_db (update_finished_loop env m db (xs @ ?x # ys))) k =
        base_record (session_db (update_finished_loop env m db (xs @ ys))) k"
    by (simp add: update_finished_loop_eq agree_off_def)
  have ntf: "(?rid, error) \<in> set (notified (update_finished env db m (xs @ ?x # ys)))"
    by (simp add: eq per_turn_append per_turn_Cons item(5))
  have log: "session_log (update_finished env db m (xs @ ?x # ys)) =
       (select_manager_for_update # per_turn (item_ops env m) env m db xs) @
       select_task_for_update tid # ?ops @ (per_turn (item_ops env m) env m ?d' ys @ [flush])"
    by (simp add: eq per_turn_append per_turn_Cons item(6))
  have held: "commit \<notin> set (session_log (update_finished env db m (xs @ ?x # ys))) \<and>
     rollback \<notin> set (session_log (update_finished env db m (xs @ ?x # ys)))"
    using per_turn_item_ops [of env m db "xs @ ?x # ys"] by (simp add: eq)
  show ?thesis
    apply (rule exI [of _ "\<lparr>rejected_info = per_turn (rejection env m) env m db (xs @ ?x # ys),
        accepted_ids = per_turn (success_id env m) env m db (xs @ ?x # ys) @
                       per_turn (failure_id env m) env m db (xs @ ?x # ys)\<rparr>"])
    apply (rule exI [of _ "\<lparr>rejected_info = per_turn (rejection env m) env m db (xs @ ys),
        accepted_ids = per_turn (success_id env m) env m db (xs @ ys) @
                       per_turn (failure_id env m) env m db (xs @ ys)\<rparr>"])
    apply (rule exI [of _ "per_turn (rejection env m) env m db xs"])
    apply (rule exI [of _ "per_turn (rejection env m) env m ?d ys"])
    apply (rule exI [of _ "select_manager_for_update # per_turn (item_ops env m) env m db xs"])
    apply (rule exI [of _ "per_turn (item_ops env m) env m ?d' ys @ [flush]"])
    apply (rule exI [of _ msg])
    apply (intro conjI)
               apply (simp add: eq)
              apply (simp add: eq)
             apply (rule rec)
            apply (rule rej)
           apply (rule rej')
          apply (simp add: acc)
         apply (rule tbr)
        apply (rule others)
       apply (rule ntf)
      apply (rule log)
     apply (rule held [THEN conjunct1])
    apply (rule held [THEN conjunct2])
    done
qed

theorem update_finished_internal_error_witness:
  "compute_manager example_running_db ''m1'' = Some example_manager \<and>
   mgr_status example_manager = active \<and>
   item_task (session_db (update_finished_loop example_env ''m1'' example_running_db
       [(1, FailedOperation False ''compute_error'' ''no convergence'')])) (2, OtherResult True 0)
     = Some (example_tasks ! 1) \<and>
   success (OtherResult True 0) \<and>
   update_completed_task (completion_handler example_env)
       (example_record\<lparr>rec_status := running, rec_manager_name := Some ''m1''\<rparr>)
       (OtherResult True 0) ''m1'' =
     Raised (example_record\<lparr>rec_status := running, rec_manager_name := Some ''m1'',
               rec_modified_on := 999\<rparr>) ''boom'' \<and>
   (\<exists>meta. returned (update_finished example_env example_running_db ''m1'' example_results)
             = Inr meta \<and>
       (2, ''Internal server error'') \<in> set (rejected_info meta)) \<and>
   (12, error) \<in> set (notified (update_finished example_env example_running_db ''m1''
       example_results)) \<and>
   (\<exists>msg. base_record (session_db (update_finished_loop example_env ''m1'' example_running_db
       example_results)) 12 =
     Some \<lparr>rec_status = error, rec_manager_name = Some ''m1'', rec_modified_on = 0,
           rec_compute_history = [\<lparr>hist_status = error, hist_manager_name = ''m1'',
             hist_result = FailedOperation False ''internal_fractal_error'' msg\<rparr>]\<rparr>)"
proof -
  note act = example_manager_active
  let ?xs = "[(1, FailedOperation False ''compute_error'' ''no convergence'')]"
  let ?ys = "[(3, OtherResult True 7), (4, OtherResult True 7), (9, OtherResult True 7)]"
  let ?r = "example_record\<lparr>rec_status := running, rec_manager_name := Some ''m1''\<rparr>"
  have split: "example_results = ?xs @ (2, OtherResult True 0) # ?ys"
    by (simp add: example_results_def)
  have t: "item_task (session_db (update_finished_loop example_env ''m1'' example_running_db ?xs))
      (2, OtherResult True 0) = Some (example_tasks ! 1)"
    by (simp add: item_task_def finish_defs example_defs)
  have r: "base_record (session_db (update_finished_loop example_env ''m1'' example_running_db ?xs))
      (task_record_id (example_tasks ! 1)) = Some ?r"
    by (simp add: finish_defs example_defs)
  have st: "rec_status ?r = running" "rec_manager_name ?r = Some ''m1''"
    by simp_all
  have raised: "update_completed_task (completion_handler example_env) ?r (OtherResult True 0) ''m1''
      = Raised (?r\<lparr>rec_modified_on := 999\<rparr>) ''boom''"
    by (simp add: update_completed_task_def example_env_def)
  then have bad: "\<not> success (OtherResult True 0) \<and> \<not> is_FailedOperation (OtherResult True 0) \<or>
      success (OtherResult True 0) \<and>
      (\<exists>dirty tb. update_completed_task (completion_handler example_env) ?r (OtherResult True 0)
         ''m1'' = Raised dirty tb)"
    by simp
  have later: "\<forall>y\<in>set ?ys. item_record_id example_running_db y
      \<noteq> Some (task_record_id (example_tasks ! 1))"
    by (simp add: item_record_id_def item_task_def example_running_db_def example_defs)
  have id: "task_record_id (example_tasks ! 1) = 12"
    by (simp add: example_defs)
  from update_finished_internal_error [OF act t r st bad later, folded split, unfolded id]
  obtain meta pre post msg where
    m1: "returned (update_finished example_env example_running_db ''m1'' example_results) = Inr meta"
    and m3: "base_record (session_db (update_finished_loop example_env ''m1'' example_running_db
       example_results)) 12 =
     Some (?r\<lparr>rec_status := error,
               rec_compute_history := rec_compute_history ?r @
                 [\<lparr>hist_status = error, hist_manager_name = ''m1'',
                   hist_result = FailedOperation False ''internal_fractal_error'' msg\<rparr>]\<rparr>)"
    and m4: "rejected_info meta =
       pre @ (2, if success (OtherResult True 0) then ''Internal server error''
                   else ''Returned success=False, but not a FailedOperation'') # post"
    and m9: "(12, error) \<in> set (notified (update_finished example_env example_running_db ''m1''
       example_results))"
    by blast
  from m4 have rej: "(2, ''Internal server error'') \<in> set (rejected_info meta)"
    by simp
  from m3 have rec: "base_record (session_db (update_finished_loop example_env ''m1''
      example_running_db example_results)) 12 =
     Some \<lparr>rec_status = error, rec_manager_name = Some ''m1'', rec_modified_on = 0,
           rec_compute_history = [\<lparr>hist_status = error, hist_manager_name = ''m1'',
             hist_result = FailedOperation False ''internal_fractal_error'' msg\<rparr>]\<rparr>"
    by (simp add: example_record_def)
  have raised': "update_completed_task (completion_handler example_env)
       (example_record\<lparr>rec_status := running, rec_manager_name := Some ''m1''\<rparr>)
       (OtherResult True 0) ''m1'' =
     Raised (example_record\<lparr>rec_status := running, rec_manager_name := Some ''m1'',
               rec_modified_on := 999\<rparr>) ''boom''"
    using raised by simp
  have s: "success (OtherResult True 0)" by simp
  from m1 rej have "\<exists>meta. returned (update_finished example_env example_running_db ''m1''
      example_results) = Inr meta \<and> (2, ''Internal server error'') \<in> set (rejected_info meta)"
    by blast
  moreover from rec have "\<exists>msg. base_record (session_db (update_finished_loop example_env ''m1''
      example_running_db example_results)) 12 =
     Some \<lparr>rec_status = error, rec_manager_name = Some ''m1'', rec_modified_on = 0,
           rec_compute_history = [\<lparr>hist_status = error, hist_manager_name = ''m1'',
             hist_result = FailedOperation False ''internal_fractal_error'' msg\<rparr>]\<rparr>"
    by blast
  ultimately show ?thesis
    using act t raised' s m9 by (intro conjI)
qed

text \<open>
  C3. With an active manager, an item of the batch whose task id is not in the task
  queue is rejected with the reason that the task does not exist. An item whose record
  is not running, or is running on another manager, is rejected with the reason of its
  case; the record is the same after the loop, it is not queued for a reset, and it is the
  same in the database the call leaves when \<open>reset\<close> writes only the records it is given.
  In neither case is the task id among the accepted ids.
\<close>

theorem update_finished_rejections:
  assumes "compute_manager db m = Some manager" "mgr_status manager = active"
    and "(tid, res) \<in> set results"
  shows "\<exists>meta. returned (update_finished env db m results) = Inr meta \<and>
     (item_task db (tid, res) = None \<longrightarrow>
        (tid, ''Task does not exist in the task queue'') \<in> set (rejected_info meta) \<and>
        tid \<notin> set (accepted_ids meta)) \<and>
     (\<forall>t r. item_task db (tid, res) = Some t \<and> base_record db (task_record_id t) = Some r \<and>
            (rec_status r \<noteq> running \<or> rec_manager_name r \<noteq> Some m) \<longrightarrow>
        (tid, if rec_status r \<noteq> running then ''Task is not in a running state''
              else ''Task is claimed by another manager'') \<in> set (rejected_info meta) \<and>
        tid \<notin> set (accepted_ids meta) \<and>
        base_record (session_db (update_finished_loop env m db results)) (task_record_id t) = Some r \<and>
        task_record_id t \<notin> set (to_be_reset (update_finished_loop env m db results)) \<and>
        ((\<forall>ids d k. k \<notin> set ids \<longrightarrow> base_record (reset env ids d) k = base_record d k) \<longrightarrow>
           base_record (database_after (update_finished env db m results)) (task_record_id t) =
             Some r))"
proof -
  note eq = update_finished_active [OF assms(1,2), of env results]
  let ?meta = "\<lparr>rejected_info = per_turn (rejection env m) env m db results,
                accepted_ids = per_turn (success_id env m) env m db results @
                               per_turn (failure_id env m) env m db results\<rparr>"
  let ?x = "(tid, res)"
  have none: "(tid, ''Task does not exist in the task queue'') \<in> set (rejected_info ?meta) \<and>
        tid \<notin> set (accepted_ids ?meta)" if "item_task db ?x = None"
  proof -
    from that have r: "item_record db ?x = None" by (rule item_record_task)
    have o: "out_of_reach m None" by (simp add: out_of_reach_def)
    from out_of_reach_rejected [OF r o assms(3), of env]
      out_of_reach_not_accepted(1,2) [OF r o, of env results]
    show ?thesis by simp
  qed
  have some: "(tid, if rec_status r \<noteq> running then ''Task is not in a running state''
              else ''Task is claimed by another manager'') \<in> set (rejected_info ?meta) \<and>
        tid \<notin> set (accepted_ids ?meta) \<and>
        base_record (session_db (update_finished_loop env m db results)) (task_record_id t) = Some r \<and>
        task_record_id t \<notin> set (to_be_reset (update_finished_loop env m db results)) \<and>
        ((\<forall>ids d k. k \<notin> set ids \<longrightarrow> base_record (reset env ids d) k = base_record d k) \<longrightarrow>
           base_record (database_after (update_finished env db m results)) (task_record_id t) =
             Some r)"
    if t: "item_task db ?x = Some t" and r: "base_record db (task_record_id t) = Some r"
      and u: "rec_status r \<noteq> running \<or> rec_manager_name r \<noteq> Some m" for t r
  proof -
    from t r have ir: "item_record db ?x = Some r" by (simp add: item_record_task)
    from t have rid: "item_record_id db ?x = Some (task_record_id t)" by (rule item_record_task)
    from u have o: "out_of_reach m (Some r)" by (simp add: out_of_reach_def)
    from out_of_reach_not_accepted(3) [OF ir o, of env results] rid
    have nr: "task_record_id t \<notin> set (per_turn (reset_wanted env m) env m db results)"
      by simp
    have "item_record (foldl (db_after_item env m) db results) ?x = Some r"
      using ir o by (rule out_of_reach_kept)
    moreover have "item_record_id (foldl (db_after_item env m) db results) ?x =
        Some (task_record_id t)"
      using rid item_record_id_cong [of "foldl (db_after_item env m) db results" db ?x ?x]
      by (simp add: db_after_items_task_queue)
    ultimately have kept: "base_record (foldl (db_after_item env m) db results) (task_record_id t) =
        Some r"
      by (simp add: item_record_def)
    from out_of_reach_rejected [OF ir o assms(3), of env]
      out_of_reach_not_accepted(1,2) [OF ir o, of env results] nr kept
    show ?thesis
      by (simp add: eq update_finished_loop_eq)
  qed
  from none some show ?thesis
    by (intro exI [of _ ?meta]) (simp add: eq)
qed

theorem update_finished_rejections_witness:
  "compute_manager example_running_db ''m1'' = Some example_manager \<and>
   mgr_status example_manager = active \<and>
   item_task example_running_db (4, OtherResult True 7) = Some (example_tasks ! 3) \<and>
   base_record example_running_db 14 = Some (example_record\<lparr>rec_status := complete\<rparr>) \<and>
   (\<exists>meta. returned (update_finished example_env example_running_db ''m1'' example_results)
             = Inr meta \<and>
       (4, ''Task is not in a running state'') \<in> set (rejected_info meta) \<and>
       (9, ''Task does not exist in the task queue'') \<in> set (rejected_info meta) \<and>
       4 \<notin> set (accepted_ids meta)) \<and>
   base_record (session_db (update_finished_loop example_env ''m1'' example_running_db
      example_results)) 14 = Some (example_record\<lparr>rec_status := complete\<rparr>)"
proof -
  note act = example_manager_active
  have in4: "(4, OtherResult True 7) \<in> set example_results"
    and in9: "(9, OtherResult True 7) \<in> set example_results"
    by (simp_all add: example_results_def)
  have t4: "item_task example_running_db (4, OtherResult True 7) = Some (example_tasks ! 3)"
    by (simp add: item_task_def example_running_db_def example_defs)
  have r4: "base_record example_running_db (task_record_id (example_tasks ! 3)) =
      Some (example_record\<lparr>rec_status := complete\<rparr>)"
    by (simp add: example_running_db_def example_defs)
  have s4: "rec_status (example_record\<lparr>rec_status := complete\<rparr>) \<noteq> running"
    by simp
  have t9: "item_task example_running_db (9, OtherResult True 7) = None"
    by (simp add: item_task_def example_running_db_def example_defs)
  have id4: "task_record_id (example_tasks ! 3) = 14"
    by (simp add: example_defs)
  from update_finished_rejections [OF act in4, of example_env] t4 r4 s4
  obtain meta where meta:
    "returned (update_finished example_env example_running_db ''m1'' example_results) = Inr meta"
    "(4, ''Task is not in a running state'') \<in> set (rejected_info meta)"
    "4 \<notin> set (accepted_ids meta)"
    "base_record (session_db (update_finished_loop example_env ''m1'' example_running_db
        example_results)) (task_record_id (example_tasks ! 3)) =
      Some (example_record\<lparr>rec_status := complete\<rparr>)"
    by fastforce
  from update_finished_rejections [OF act in9, of example_env] t9 meta(1)
  have "(9, ''Task does not exist in the task queue'') \<in> set (rejected_info meta)"
    by fastforce
  with meta t4 r4 act show ?thesis
    unfolding id4 by blast
qed

text \<open>
  C6. With an active manager (and a \<open>reset\<close> that leaves the manager rows alone), the
  call returns as rejected the items of the batch with a rejecting verdict at their turn,
  each id with its reason, and as accepted the ids applied as successes followed by the
  ids applied as recognized failures. The manager's \<open>successes\<close>, \<open>failures\<close> and
  \<open>rejected\<close> counters go up by the number of turns with the verdict \<open>Success\<close>, with
  the verdict \<open>RecognizedFailure\<close> and with a rejecting verdict; the three numbers add up
  to the size of the batch.
\<close>

theorem update_finished_counters:
  assumes "compute_manager db m = Some manager" "mgr_status manager = active"
    and "auto_reset_enabled env \<longrightarrow> (\<forall>ids d. compute_manager (reset env ids d) = compute_manager d)"
  shows "returned (update_finished env db m results) =
           Inr \<lparr>rejected_info = per_turn (rejection env m) env m db results,
                accepted_ids = per_turn (success_id env m) env m db results @
                               per_turn (failure_id env m) env m db results\<rparr> \<and>
         compute_manager (database_after (update_finished env db m results)) m =
           Some (manager\<lparr>
             mgr_successes := mgr_successes manager +
               int (length (filter (\<lambda>(d, x). verdict env m d x = Success) (turns env m db results))),
             mgr_failures := mgr_failures manager +
               int (length (filter (\<lambda>(d, x). verdict env m d x = RecognizedFailure)
                              (turns env m db results))),
             mgr_rejected := mgr_rejected manager +
               int (length (filter (\<lambda>(d, x). rejection_reason (verdict env m d x) \<noteq> None)
                              (turns env m db results)))\<rparr>) \<and>
         length (per_turn (success_id env m) env m db results) =
           length (filter (\<lambda>(d, x). verdict env m d x = Success) (turns env m db results)) \<and>
         length (per_turn (failure_id env m) env m db results) =
           length (filter (\<lambda>(d, x). verdict env m d x = RecognizedFailure) (turns env m db results)) \<and>
         length (per_turn (rejection env m) env m db results) =
           length (filter (\<lambda>(d, x). rejection_reason (verdict env m d x) \<noteq> None)
                     (turns env m db results)) \<and>
         length (per_turn (success_id env m) env m db results) +
           length (per_turn (failure_id env m) env m db results) +
           length (per_turn (rejection env m) env m db results) = length results"
proof -
  note eq = update_finished_active [OF assms(1,2), of env results]
  have "compute_manager (database_after (update_finished env db m results)) m =
        Some (counted manager (length (per_turn (success_id env m) env m db results))
               (length (per_turn (failure_id env m) env m db results))
               (length (per_turn (rejection env m) env m db results)))"
    unfolding eq using assms(3) by simp
  then show ?thesis
    unfolding counted_def length_success length_failure length_rejection
    using one_list_per_turn [of env m db results]
    by (simp add: eq length_success length_failure length_rejection)
qed

theorem update_finished_counters_witness:
  "compute_manager example_running_db ''m1'' = Some example_manager \<and>
   mgr_status example_manager = active \<and> auto_reset_enabled example_env \<and>
   per_turn (rejection example_env ''m1'') example_env ''m1'' example_running_db example_results =
     [(2, ''Internal server error''), (4, ''Task is not in a running state''),
      (9, ''Task does not exist in the task queue'')] \<and>
   per_turn (success_id example_env ''m1'') example_env ''m1'' example_running_db example_results @
   per_turn (failure_id example_env ''m1'') example_env ''m1'' example_running_db example_results =
     [3, 1] \<and>
   map_option mgr_successes (compute_manager (database_after
     (update_finished example_env example_running_db ''m1'' example_results)) ''m1'') = Some 1 \<and>
   map_option mgr_failures (compute_manager (database_after
     (update_finished example_env example_running_db ''m1'' example_results)) ''m1'') = Some 1 \<and>
   map_option mgr_rejected (compute_manager (database_after
     (update_finished example_env example_running_db ''m1'' example_results)) ''m1'') = Some 3"
proof -
  note act = example_manager_active
  have en: "auto_reset_enabled example_env"
    by (simp add: example_env_def)
  have frame: "auto_reset_enabled example_env \<longrightarrow>
      (\<forall>ids d. compute_manager (reset example_env ids d) = compute_manager d)"
    by (simp add: example_env_def)
  have e: "returned (update_finished example_env example_running_db ''m1'' example_results) =
     Inr \<lparr>rejected_info = [(2, ''Internal server error''), (4, ''Task is not in a running state''),
          (9, ''Task does not exist in the task queue'')], accepted_ids = [3, 1]\<rparr>"
    by (simp add: finish_defs example_defs)
  have c: "map_option mgr_successes (compute_manager (database_after
       (update_finished example_env example_running_db ''m1'' example_results)) ''m1'') = Some 1"
    "map_option mgr_failures (compute_manager (database_after
       (update_finished example_env example_running_db ''m1'' example_results)) ''m1'') = Some 1"
    "map_option mgr_rejected (compute_manager (database_after
       (update_finished example_env example_running_db ''m1'' example_results)) ''m1'') = Some 3"
    by (simp_all add: finish_defs example_defs)
  from update_finished_counters [OF act frame, of example_results] e
  have "per_turn (rejection example_env ''m1'') example_env ''m1'' example_running_db
          example_results =
     [(2, ''Internal server error''), (4, ''Task is not in a running state''),
      (9, ''Task does not exist in the task queue'')] \<and>
   per_turn (success_id example_env ''m1'') example_env ''m1'' example_running_db example_results @
   per_turn (failure_id example_env ''m1'') example_env ''m1'' example_running_db example_results =
     [3, 1]"
    by simp
  with act en c show ?thesis by blast
qed

text \<open>
  C7. With an active manager, a record id is queued for a reset exactly when auto-reset
  is enabled and some item of the batch had a recognized failure applied at its turn to
  that record and \<open>should_reset\<close> holds of the record as the failure left it. The
  result of the call depends on \<open>should_reset\<close> through those records only. The resets
  are one call of \<open>reset\<close> with the whole queue, on the database in which every item of
  the batch has been processed and the manager's counters are updated. With auto-reset
  disabled nothing is queued, \<open>reset\<close> is not called, and neither \<open>should_reset\<close> nor
  \<open>reset\<close> matters to the result.
\<close>

theorem update_finished_auto_reset:
  assumes "compute_manager db m = Some manager" "mgr_status manager = active"
  shows "to_be_reset (update_finished_loop env m db results) =
           per_turn (reset_wanted env m) env m db results \<and>
         (\<forall>rid. rid \<in> set (to_be_reset (update_finished_loop env m db results)) \<longleftrightarrow>
            auto_reset_enabled env \<and>
            (\<exists>(d, x) \<in> set (turns env m db results). \<exists>r.
               verdict env m d x = RecognizedFailure \<and> item_record_id d x = Some rid \<and>
               base_record d rid = Some r \<and>
               base_record (db_after_item env m d x) rid =
                 Some (update_failed_task r (snd x) m) \<and>
               should_reset env (update_failed_task r (snd x) m))) \<and>
         database_after (update_finished env db m results) =
           (if auto_reset_enabled env \<and> to_be_reset (update_finished_loop env m db results) \<noteq> []
            then reset env (to_be_reset (update_finished_loop env m db results))
                   ((session_db (update_finished_loop env m db results))
                      \<lparr>compute_manager := (compute_manager db)(m \<mapsto>
                         counted manager
                           (length (tasks_success (update_finished_loop env m db results)))
                           (length (tasks_failures (update_finished_loop env m db results)))
                           (length (tasks_rejected (update_finished_loop env m db results))))\<rparr>)
            else (session_db (update_finished_loop env m db results))
                      \<lparr>compute_manager := (compute_manager db)(m \<mapsto>
                         counted manager
                           (length (tasks_success (update_finished_loop env m db results)))
                           (length (tasks_failures (update_finished_loop env m db results)))
                           (length (tasks_rejected (update_finished_loop env m db results))))\<rparr>) \<and>
         session_db (update_finished_loop env m db results) =
           foldl (db_after_item env m) db results \<and>
         (\<not> auto_reset_enabled env \<longrightarrow>
            to_be_reset (update_finished_loop env m db results) = [] \<and>
            (\<forall>f g. update_finished (env\<lparr>should_reset := f, reset := g\<rparr>) db m results =
                    update_finished env db m results)) \<and>
         (\<forall>f. (\<forall>(d, x) \<in> set (turns env m db results). \<forall>r.
                 verdict env m d x = RecognizedFailure \<and> item_record d x = Some r \<longrightarrow>
                 f (update_failed_task r (snd x) m) =
                   should_reset env (update_failed_task r (snd x) m)) \<longrightarrow>
              update_finished (env\<lparr>should_reset := f\<rparr>) db m results =
                update_finished env db m results)"
proof -
  note eq = update_finished_active [OF assms(1,2)]
  have tbr: "to_be_reset (update_finished_loop env m db results) =
           per_turn (reset_wanted env m) env m db results"
    by (simp add: update_finished_loop_eq)
  have mem: "rid \<in> set (per_turn (reset_wanted env m) env m db results) \<longleftrightarrow>
            auto_reset_enabled env \<and>
            (\<exists>(d, x) \<in> set (turns env m db results). \<exists>r.
               verdict env m d x = RecognizedFailure \<and> item_record_id d x = Some rid \<and>
               base_record d rid = Some r \<and>
               base_record (db_after_item env m d x) rid =
                 Some (update_failed_task r (snd x) m) \<and>
               should_reset env (update_failed_task r (snd x) m))" for rid
  proof -
    have "rid \<in> set (reset_wanted env m d x) \<longleftrightarrow>
            auto_reset_enabled env \<and> (\<exists>r.
               verdict env m d x = RecognizedFailure \<and> item_record_id d x = Some rid \<and>
               base_record d rid = Some r \<and>
               base_record (db_after_item env m d x) rid =
                 Some (update_failed_task r (snd x) m) \<and>
               should_reset env (update_failed_task r (snd x) m))" for d x
      by (auto simp: reset_wanted_def db_after_item_def record_after_def verdict_def
          item_record_def split: option.splits if_splits attempt.splits)
    then show ?thesis
      unfolding in_per_turn by blast
  qed
  have off: "per_turn (reset_wanted env m) env m db results = []" if "\<not> auto_reset_enabled env"
  proof -
    have "per_turn (reset_wanted env m) env m db results = per_turn (\<lambda>d x. []) env m db results"
      by (rule per_turn_cong) (simp add: reset_wanted_def that split: option.splits)
    then show ?thesis by (simp add: per_turn_def)
  qed
  have indep: "update_finished (env\<lparr>should_reset := f, reset := g\<rparr>) db m results =
                    update_finished env db m results" if d: "\<not> auto_reset_enabled env" for f g
  proof -
    let ?env = "env\<lparr>should_reset := f, reset := g\<rparr>"
    have h: "completion_handler ?env = completion_handler env" by simp
    have d': "\<not> auto_reset_enabled ?env" using d by simp
    note v = per_item_handler_only [OF h]
    show ?thesis
      unfolding eq [of ?env] eq [of env]
      using d by (simp add: v per_turn_env [OF h] foldl_db_env [OF h])
  qed
  have c2: "\<forall>rid. rid \<in> set (to_be_reset (update_finished_loop env m db results)) \<longleftrightarrow>
            auto_reset_enabled env \<and>
            (\<exists>(d, x) \<in> set (turns env m db results). \<exists>r.
               verdict env m d x = RecognizedFailure \<and> item_record_id d x = Some rid \<and>
               base_record d rid = Some r \<and>
               base_record (db_after_item env m d x) rid =
                 Some (update_failed_task r (snd x) m) \<and>
               should_reset env (update_failed_task r (snd x) m))"
    unfolding tbr using mem by blast
  have c3: "database_after (update_finished env db m results) =
           (if auto_reset_enabled env \<and> to_be_reset (update_finished_loop env m db results) \<noteq> []
            then reset env (to_be_reset (update_finished_loop env m db results))
                   ((session_db (update_finished_loop env m db results))
                      \<lparr>compute_manager := (compute_manager db)(m \<mapsto>
                         counted manager
                           (length (tasks_success (update_finished_loop env m db results)))
                           (length (tasks_failures (update_finished_loop env m db results)))
                           (length (tasks_rejected (update_finished_loop env m db results))))\<rparr>)
            else (session_db (update_finished_loop env m db results))
                      \<lparr>compute_manager := (compute_manager db)(m \<mapsto>
                         counted manager
                           (length (tasks_success (update_finished_loop env m db results)))
                           (length (tasks_failures (update_finished_loop env m db results)))
                           (length (tasks_rejected (update_finished_loop env m db results))))\<rparr>)"
    by (simp add: eq update_finished_loop_eq)
  have c4: "session_db (update_finished_loop env m db results) =
           foldl (db_after_item env m) db results"
    by (simp add: update_finished_loop_eq)
  have c5: "\<not> auto_reset_enabled env \<longrightarrow>
            to_be_reset (update_finished_loop env m db results) = [] \<and>
            (\<forall>f g. update_finished (env\<lparr>should_reset := f, reset := g\<rparr>) db m results =
                    update_finished env db m results)"
    using off indep by (simp add: tbr)
  have c6: "\<forall>f. (\<forall>(d, x) \<in> set (turns env m db results). \<forall>r.
                 verdict env m d x = RecognizedFailure \<and> item_record d x = Some r \<longrightarrow>
                 f (update_failed_task r (snd x) m) =
                   should_reset env (update_failed_task r (snd x) m)) \<longrightarrow>
              update_finished (env\<lparr>should_reset := f\<rparr>) db m results =
                update_finished env db m results"
    using should_reset_only_after_failure [OF assms, of env results] by blast
  show ?thesis
    by (intro conjI) (rule tbr c2 c3 c4 c5 c6)+
qed

theorem update_finished_auto_reset_witness:
  "compute_manager example_running_db ''m1'' = Some example_manager \<and>
   mgr_status example_manager = active \<and> auto_reset_enabled example_env \<and>
   to_be_reset (update_finished_loop example_env ''m1'' example_running_db example_results) = [11] \<and>
   per_turn (reset_wanted example_env ''m1'') example_env ''m1'' example_running_db example_results
     = [11] \<and>
   map_option rec_status (base_record (database_after
     (update_finished example_env example_running_db ''m1'' example_results)) 11) = Some waiting \<and>
   map_option rec_status (base_record (database_after
     (update_finished example_env example_running_db ''m1'' example_results)) 12) = Some error"
proof -
  note act = example_manager_active
  have en: "auto_reset_enabled example_env"
    by (simp add: example_env_def)
  have e: "to_be_reset (update_finished_loop example_env ''m1'' example_running_db example_results)
      = [11]"
    by (simp add: finish_defs example_defs)
  have s: "map_option rec_status (base_record (database_after
     (update_finished example_env example_running_db ''m1'' example_results)) 11) = Some waiting"
    "map_option rec_status (base_record (database_after
     (update_finished example_env example_running_db ''m1'' example_results)) 12) = Some error"
    by (simp_all add: finish_defs example_defs)
  from update_finished_auto_reset [OF act, of example_env example_results] e
  have "per_turn (reset_wanted example_env ''m1'') example_env ''m1'' example_running_db
          example_results = [11]"
    by simp
  with act en e s show ?thesis by blast
qed

end
